theory Spec2Isabelle
  imports Main
begin

section \<open>ISON parser and serializer (ison-ts), embedded in HOL\<close>

text \<open>
  The embedding follows the TypeScript implementation (classes \<open>Reference\<close>, \<open>Block\<close>,
  \<open>Document\<close>, \<open>Parser\<close>, \<open>Serializer\<close>, \<open>ISONLParser\<close>).

  Conventions of the model:
  \<^item> a JavaScript string is a \<open>string\<close> (a list of 8-bit characters standing for code units);
  \<^item> the parser's cursor \<open>pos\<close> into the immutable \<open>text\<close> is modelled by the unread
    suffix \<open>text.substring(pos)\<close>; every method of \<open>Parser\<close> reads only that suffix;
  \<^item> the \<open>line\<close> counter is used only inside error messages and is left out;
  \<^item> a thrown \<open>ISONSyntaxError\<close> is the \<open>Inl\<close> branch of a sum;
  \<^item> a \<open>Row\<close> (\<open>Record<string, Value>\<close>) is a plain JavaScript object: its own
    properties (a partial map from keys to values) and its prototype, which a read of a
    key that is not an own property falls through to;
  \<^item> a JavaScript number is modelled by an exact decimal (mantissa and scale); rounding to
    binary64 and exponent notation for very large or very small magnitudes are not modelled.
\<close>

subsection \<open>Characters and string helpers\<close>

abbreviation DQUOTE :: char where "DQUOTE \<equiv> CHR 0x22"
abbreviation BSLASH :: char where "BSLASH \<equiv> CHR 0x5C"
abbreviation NEWLINE :: char where "NEWLINE \<equiv> CHR 0x0A"
abbreviation TAB :: char where "TAB \<equiv> CHR 0x09"
abbreviation CRET :: char where "CRET \<equiv> CHR 0x0D"

text \<open>\<open>\d\<close>, \<open>[a-z]\<close> and \<open>[A-Z_]\<close> of the regular expressions.\<close>

definition isDigit :: "char \<Rightarrow> bool" where
  "isDigit c = (c \<in> set ''0123456789'')"

definition isLower :: "char \<Rightarrow> bool" where
  "isLower c = (c \<in> set ''abcdefghijklmnopqrstuvwxyz'')"

definition isUpperOrUnderscore :: "char \<Rightarrow> bool" where
  "isUpperOrUnderscore c = (c \<in> set ''ABCDEFGHIJKLMNOPQRSTUVWXYZ_'')"

text \<open>
  White space as \<open>String.prototype.trim\<close> and \<open>\s\<close> see it, restricted to 8-bit
  characters: TAB, LF, VT, FF, CR, space and the no-break space.
\<close>

definition isJsSpace :: "char \<Rightarrow> bool" where
  "isJsSpace c = (c \<in> {CHR 0x09, CHR 0x0A, CHR 0x0B, CHR 0x0C, CHR 0x0D, CHR 0x20, CHR 0xA0})"

definition trim :: "string \<Rightarrow> string" where
  "trim s = rev (dropWhile isJsSpace (rev (dropWhile isJsSpace s)))"

text \<open>\<open>s.startsWith(p)\<close> and \<open>s.includes(c)\<close> for a one-character needle.\<close>

definition startsWith :: "string \<Rightarrow> string \<Rightarrow> bool" where
  "startsWith s p = (take (length p) s = p)"

definition includesChar :: "string \<Rightarrow> char \<Rightarrow> bool" where
  "includesChar s c = (c \<in> set s)"

text \<open>\<open>s.indexOf(c)\<close>: \<open>None\<close> stands for \<open>-1\<close>.\<close>

fun indexOf :: "string \<Rightarrow> char \<Rightarrow> nat option" where
  "indexOf [] c = None"
| "indexOf (x # xs) c = (if x = c then Some 0 else map_option Suc (indexOf xs c))"

text \<open>
  \<open>s.split(c)\<close> for a one-character separator: always at least one part, the empty
  string splits into one empty part.
\<close>

fun split :: "string \<Rightarrow> char \<Rightarrow> string list" where
  "split [] c = [[]]"
| "split (x # xs) c =
     (if x = c then [] # split xs c
      else (case split xs c of p # ps \<Rightarrow> (x # p) # ps | [] \<Rightarrow> [[x]]))"

text \<open>\<open>parts.join(sep)\<close>.\<close>

fun join :: "string list \<Rightarrow> string \<Rightarrow> string" where
  "join [] sep = []"
| "join [p] sep = p"
| "join (p # q # ps) sep = p @ sep @ join (q # ps) sep"

text \<open>\<open>s.padEnd(n)\<close>: pad with spaces on the right up to length \<open>n\<close>.\<close>

definition padEnd :: "string \<Rightarrow> nat \<Rightarrow> string" where
  "padEnd s n = s @ replicate (n - length s) (CHR '' '')"

text \<open>\<open>s.replace(/c/g, r)\<close> for a one-character pattern.\<close>

definition replaceAll :: "char \<Rightarrow> string \<Rightarrow> string \<Rightarrow> string" where
  "replaceAll c r s = concat (map (\<lambda>x. if x = c then r else [x]) s)"

text \<open>
  \<open>s.toUpperCase()\<close> on the ASCII letters; characters outside ASCII are left unchanged
  by the model. \<open>isRelationship\<close> below conjoins it with a test that rejects every string
  holding such a character.
\<close>

definition toUpperChar :: "char \<Rightarrow> char" where
  "toUpperChar c = (if isLower c then char_of (of_char c - (32::nat)) else c)"

definition toUpperCase :: "string \<Rightarrow> string" where
  "toUpperCase s = map toUpperChar s"

subsection \<open>The regular expressions of the source\<close>

definition stripMinus :: "string \<Rightarrow> string" where
  "stripMinus s = (case s of [] \<Rightarrow> [] | c # cs \<Rightarrow> if c = CHR ''-'' then cs else s)"

text \<open>\<open>/^-?\d+$/\<close>\<close>

definition matchesInt :: "string \<Rightarrow> bool" where
  "matchesInt s = (let r = stripMinus s in r \<noteq> [] \<and> list_all isDigit r)"

text \<open>\<open>/^-?\d+\.\d+$/\<close>\<close>

definition matchesDecimal :: "string \<Rightarrow> bool" where
  "matchesDecimal s =
     (let r = stripMinus s; ip = takeWhile isDigit r; rest = dropWhile isDigit r
      in ip \<noteq> [] \<and>
         (case rest of [] \<Rightarrow> False
          | c # fp \<Rightarrow> c = CHR ''.'' \<and> fp \<noteq> [] \<and> list_all isDigit fp))"

text \<open>\<open>/^-?\d+(\.\d+)?$/\<close>, the serializer's test.\<close>

definition matchesNumber :: "string \<Rightarrow> bool" where
  "matchesNumber s =
     (let r = stripMinus s; ip = takeWhile isDigit r; rest = dropWhile isDigit r
      in ip \<noteq> [] \<and>
         (case rest of [] \<Rightarrow> True
          | c # fp \<Rightarrow> c = CHR ''.'' \<and> fp \<noteq> [] \<and> list_all isDigit fp))"

text \<open>\<open>/^[a-z]+\./\<close>, the test for the start of a new block inside the row loop.\<close>

definition matchesHeaderStart :: "string \<Rightarrow> bool" where
  "matchesHeaderStart s =
     (takeWhile isLower s \<noteq> [] \<and>
      (case dropWhile isLower s of [] \<Rightarrow> False | c # _ \<Rightarrow> c = CHR ''.''))"

text \<open>\<open>/^[A-Z_]+$/\<close>\<close>

definition matchesUpper :: "string \<Rightarrow> bool" where
  "matchesUpper s = (s \<noteq> [] \<and> list_all isUpperOrUnderscore s)"

subsection \<open>Data model\<close>

text \<open>Numbers: \<open>Dec m k\<close> stands for \<open>m / 10^k\<close>.\<close>

datatype number = Dec int nat

function normalize :: "int \<Rightarrow> nat \<Rightarrow> number" where
  "normalize m k =
     (if k = 0 then Dec m 0
      else if m mod 10 = 0 then normalize (m div 10) (k - 1)
      else Dec m k)"
  by pat_completeness auto
termination
  by (relation "measure (\<lambda>(m, k). k)") auto

declare normalize.simps [simp del]

definition digitValue :: "char \<Rightarrow> nat" where
  "digitValue c = of_char c - 48"

definition digitsToNat :: "string \<Rightarrow> nat" where
  "digitsToNat ds = foldl (\<lambda>acc c. 10 * acc + digitValue c) 0 ds"

text \<open>\<open>parseInt(token, 10)\<close> and \<open>parseFloat(token)\<close> on tokens that match the patterns.\<close>

definition parseInt :: "string \<Rightarrow> number" where
  "parseInt s =
     (let n = int (digitsToNat (stripMinus s))
      in Dec (if startsWith s ''-'' then - n else n) 0)"

definition parseFloat :: "string \<Rightarrow> number" where
  "parseFloat s =
     (let r = stripMinus s; ip = takeWhile isDigit r; fp = drop 1 (dropWhile isDigit r);
          n = int (digitsToNat (ip @ fp))
      in normalize (if startsWith s ''-'' then - n else n) (length fp))"

function natToDigits :: "nat \<Rightarrow> string" where
  "natToDigits n =
     (if n < 10 then [char_of (48 + n)]
      else natToDigits (n div 10) @ [char_of (48 + n mod 10)])"
  by pat_completeness auto
termination
  by (relation "measure id") auto

declare natToDigits.simps [simp del]

text \<open>\<open>value.toString()\<close> of a number, in plain decimal notation.\<close>

definition numberToString :: "number \<Rightarrow> string" where
  "numberToString x =
     (case x of Dec m k \<Rightarrow>
        let ds = natToDigits (nat \<bar>m\<bar>);
            ds' = replicate (Suc k - length ds) (CHR ''0'') @ ds;
            body = (if k = 0 then ds'
                    else take (length ds' - k) ds' @ ''.'' @ drop (length ds' - k) ds')
        in (if m < 0 then ''-'' else '''') @ body)"

text \<open>class \<open>Reference\<close>: \<open>id\<close> and the optional \<open>type\<close>.\<close>

record Reference =
  ref_id :: string
  ref_type :: "string option"

text \<open>\<open>type Value = null | boolean | number | string | Reference\<close>\<close>

datatype Value =
    VNull
  | VBool bool
  | VNum number
  | VStr string
  | VRef Reference

text \<open>
  \<open>type Row = Record<string, Value>\<close>. The parser creates every row as the object literal
  \<open>{}\<close>, whose prototype is \<open>Object.prototype\<close>. Assigning the key \<open>__proto__\<close> runs the
  inherited setter, which replaces the prototype when the value is \<open>null\<close> or an object
  (of the values of this program: a \<open>Reference\<close>) and does nothing otherwise.
\<close>

datatype Prototype =
    ObjectPrototype
  | NullPrototype
  | ReferencePrototype Reference

record Row =
  own :: "string \<rightharpoonup> Value"
  proto :: Prototype

text \<open>An object with the given own properties and the prototype \<open>Object.prototype\<close>.\<close>

abbreviation objectLiteral :: "(string \<rightharpoonup> Value) \<Rightarrow> Row" where
  "objectLiteral m \<equiv> \<lparr>own = m, proto = ObjectPrototype\<rparr>"

text \<open>The object literal \<open>{}\<close>.\<close>

definition emptyRow :: Row where
  "emptyRow = \<lparr>own = Map.empty, proto = ObjectPrototype\<rparr>"

text \<open>
  What a read \<open>row[key]\<close> can give: \<open>undefined\<close>, a value of the program, a function
  (an inherited method), or the object \<open>Object.prototype\<close> itself.
\<close>

datatype PropertyRead =
    Undefined
  | Val Value
  | Function
  | ObjectPrototypeObject

text \<open>The members of \<open>Object.prototype\<close> and the methods of class \<open>Reference\<close>.\<close>

definition objectPrototypeMethods :: "string list" where
  "objectPrototypeMethods =
     [''constructor'', ''__defineGetter__'', ''__defineSetter__'', ''hasOwnProperty'',
      ''__lookupGetter__'', ''__lookupSetter__'', ''isPrototypeOf'',
      ''propertyIsEnumerable'', ''toString'', ''valueOf'', ''toLocaleString'']"

definition referenceMethods :: "string list" where
  "referenceMethods =
     [''constructor'', ''isRelationship'', ''getNamespace'', ''relationshipType'',
      ''toIson'', ''toString'']"

text \<open>
  \<open>row[key] = value\<close>. While the prototype chain reaches \<open>Object.prototype\<close> the key
  \<open>__proto__\<close> is the inherited accessor; every other assignment defines or updates an own
  property.
\<close>

definition assign :: "Row \<Rightarrow> string \<Rightarrow> Value \<Rightarrow> Row" where
  "assign row key v =
     (if key = ''__proto__'' \<and> proto row \<noteq> NullPrototype then
        (case v of
           VNull \<Rightarrow> row\<lparr>proto := NullPrototype\<rparr>
         | VRef r \<Rightarrow> row\<lparr>proto := ReferencePrototype r\<rparr>
         | _ \<Rightarrow> row)
      else row\<lparr>own := (own row)(key \<mapsto> v)\<rparr>)"

text \<open>
  \<open>row[key]\<close>: the own property if there is one, otherwise the prototype chain. A
  \<open>Reference\<close> as prototype contributes its own \<open>id\<close> and \<open>type\<close>, then the methods of
  its class, then \<open>Object.prototype\<close>.
\<close>

definition inheritedFromObject :: "string \<Rightarrow> PropertyRead \<Rightarrow> PropertyRead" where
  "inheritedFromObject key protoValue =
     (if key \<in> set objectPrototypeMethods then Function
      else if key = ''__proto__'' then protoValue
      else Undefined)"

definition getProperty :: "Row \<Rightarrow> string \<Rightarrow> PropertyRead" where
  "getProperty row key =
     (case own row key of
        Some v \<Rightarrow> Val v
      | None \<Rightarrow>
          (case proto row of
             NullPrototype \<Rightarrow> Undefined
           | ObjectPrototype \<Rightarrow> inheritedFromObject key ObjectPrototypeObject
           | ReferencePrototype r \<Rightarrow>
               if key = ''id'' then Val (VStr (ref_id r))
               else if key = ''type'' then
                 (case ref_type r of None \<Rightarrow> Undefined | Some t \<Rightarrow> Val (VStr t))
               else if key \<in> set referenceMethods then Function
               else inheritedFromObject key (Val (VRef r))))"

record FieldInfo =
  fi_name :: string
  fi_type :: "string option"
  isComputed :: bool

text \<open>
  class \<open>Block\<close>; its member \<open>fields\<close> is called \<open>fieldNames\<close> here (the record
  package reserves the name \<open>fields\<close>).
\<close>

record Block =
  kind :: string
  name :: string
  fieldNames :: "string list"
  fieldInfo :: "FieldInfo list"
  rows :: "Row list"
  summaryRows :: "Row list"

record Document =
  blocks :: "Block list"

text \<open>The \<open>TypeError\<close> of calling a method that a value does not have.\<close>

datatype JsError = TypeError

datatype ISONSyntaxError =
    InvalidBlockHeader string
  | UnterminatedString
  | InvalidReference string
  | InvalidISONLLine string
  | InvalidISONLHeader string

subsection \<open>class Reference\<close>

text \<open>
  \<open>if (!this.type) return false\<close>: an undefined and an empty type are both falsy.
\<close>

definition isRelationship :: "Reference \<Rightarrow> bool" where
  "isRelationship r =
     (case ref_type r of None \<Rightarrow> False
      | Some t \<Rightarrow> if t = [] then False else t = toUpperCase t \<and> matchesUpper t)"

definition getNamespace :: "Reference \<Rightarrow> string option" where
  "getNamespace r = (if isRelationship r then None else ref_type r)"

definition relationshipType :: "Reference \<Rightarrow> string option" where
  "relationshipType r = (if \<not> isRelationship r then None else ref_type r)"

definition toIson :: "Reference \<Rightarrow> string" where
  "toIson r =
     (case ref_type r of None \<Rightarrow> '':'' @ ref_id r
      | Some t \<Rightarrow> if t = [] then '':'' @ ref_id r else '':'' @ t @ '':'' @ ref_id r)"

subsection \<open>class Parser: the tokenizer\<close>

definition isSpaceTab :: "char \<Rightarrow> bool" where
  "isSpaceTab c = (c = CHR '' '' \<or> c = TAB)"

text \<open>
  \<open>findCommentStart(line)\<close>: the index of the first \<open>#\<close> outside quotes, \<open>None\<close> for
  \<open>-1\<close>. The loop carries the previous character (\<open>None\<close> at index 0) for the test
  \<open>i === 0 || line[i-1] !== '\\'\<close>.
\<close>

fun findCommentStartFrom :: "char option \<Rightarrow> bool \<Rightarrow> nat \<Rightarrow> string \<Rightarrow> nat option" where
  "findCommentStartFrom prev inQuote i [] = None"
| "findCommentStartFrom prev inQuote i (c # cs) =
     (if c = DQUOTE \<and> prev \<noteq> Some BSLASH
      then findCommentStartFrom (Some c) (\<not> inQuote) (Suc i) cs
      else if c = CHR ''#'' \<and> \<not> inQuote then Some i
      else findCommentStartFrom (Some c) inQuote (Suc i) cs)"

definition findCommentStart :: "string \<Rightarrow> nat option" where
  "findCommentStart line = findCommentStartFrom None False 0 line"

text \<open>The \<open>switch (next)\<close> of the escape sequences.\<close>

definition unescape :: "char \<Rightarrow> char" where
  "unescape next =
     (if next = CHR ''n'' then NEWLINE
      else if next = CHR ''t'' then TAB
      else if next = CHR ''r'' then CRET
      else if next = BSLASH then BSLASH
      else if next = DQUOTE then DQUOTE
      else next)"

text \<open>
  \<open>parseQuotedString(line, start)\<close>, called on the characters after the opening quote
  (\<open>line.substring(start + 1)\<close>) with the empty \<open>result\<close>. It returns the token and the
  characters after the closing quote (\<open>line.substring(newPos)\<close>), or throws when the
  characters run out.
\<close>

fun parseQuotedString :: "string \<Rightarrow> string \<Rightarrow> ISONSyntaxError + (string \<times> string)" where
  "parseQuotedString [] result = Inl UnterminatedString"
| "parseQuotedString (c # cs) result =
     (if c = BSLASH then
        (case cs of
           [] \<Rightarrow> parseQuotedString [] (result @ [BSLASH])
         | next # cs' \<Rightarrow> parseQuotedString cs' (result @ [unescape next]))
      else if c = DQUOTE then Inr (result, cs)
      else parseQuotedString cs (result @ [c]))"

lemma parseQuotedString_shorter:
  "parseQuotedString s acc = Inr (tok, rest) \<Longrightarrow> length rest < length s"
  by (induction s acc rule: parseQuotedString.induct) (auto split: if_splits list.splits)

text \<open>The \<open>while (i < line.length)\<close> loop of \<open>tokenizeLine\<close>, on the unread characters.\<close>

function tokenizeFrom :: "string \<Rightarrow> ISONSyntaxError + string list" where
  "tokenizeFrom s =
     (case dropWhile isSpaceTab s of
        [] \<Rightarrow> Inr []
      | c # cs \<Rightarrow>
          if c = DQUOTE then
            (case parseQuotedString cs [] of
               Inl e \<Rightarrow> Inl e
             | Inr (token, rest) \<Rightarrow>
                 (case tokenizeFrom rest of
                    Inl e \<Rightarrow> Inl e
                  | Inr tokens \<Rightarrow> Inr (token # tokens)))
          else
            (case tokenizeFrom (dropWhile (\<lambda>x. \<not> isSpaceTab x) cs) of
               Inl e \<Rightarrow> Inl e
             | Inr tokens \<Rightarrow> Inr ((c # takeWhile (\<lambda>x. \<not> isSpaceTab x) cs) # tokens)))"
  by pat_completeness auto
termination
proof (relation "measure length", goal_cases)
  case 1
  show ?case by simp
next
  case (2 s c cs x token rest)
  have "length rest < length cs"
    using 2 parseQuotedString_shorter by auto
  moreover have "length (c # cs) \<le> length s"
    using 2 length_dropWhile_le [of isSpaceTab s] by simp
  ultimately show ?case by simp
next
  case (3 s c cs)
  have "length (dropWhile (\<lambda>x. \<not> isSpaceTab x) cs) \<le> length cs"
    by (rule length_dropWhile_le)
  moreover have "length (c # cs) \<le> length s"
    using 3 length_dropWhile_le [of isSpaceTab s] by simp
  ultimately show ?case by simp
qed

declare tokenizeFrom.simps [simp del]

definition tokenizeLine :: "string \<Rightarrow> ISONSyntaxError + string list" where
  "tokenizeLine line =
     tokenizeFrom (case findCommentStart line of None \<Rightarrow> line | Some i \<Rightarrow> take i line)"

subsection \<open>class Parser: values and references\<close>

definition parseReference :: "string \<Rightarrow> ISONSyntaxError + Reference" where
  "parseReference token =
     (case split (drop 1 token) (CHR '':'') of
        [p0] \<Rightarrow> Inr \<lparr>ref_id = p0, ref_type = None\<rparr>
      | [p0, p1] \<Rightarrow> Inr \<lparr>ref_id = p1, ref_type = Some p0\<rparr>
      | _ \<Rightarrow> Inl (InvalidReference token))"

definition parseValue :: "string \<Rightarrow> ISONSyntaxError + Value" where
  "parseValue token =
     (if token = ''null'' \<or> token = ''~'' then Inr VNull
      else if token = ''true'' then Inr (VBool True)
      else if token = ''false'' then Inr (VBool False)
      else if startsWith token '':'' then
        (case parseReference token of Inl e \<Rightarrow> Inl e | Inr r \<Rightarrow> Inr (VRef r))
      else if matchesInt token then Inr (VNum (parseInt token))
      else if matchesDecimal token then Inr (VNum (parseFloat token))
      else Inr (VStr token))"

text \<open>
  The loop \<open>for (i = 0; i < fields.length && i < values.length; i++)
  row[fields[i]] = parseValue(values[i])\<close>, on the fields and values not yet visited.
\<close>

fun buildRow :: "string list \<Rightarrow> string list \<Rightarrow> Row \<Rightarrow> ISONSyntaxError + Row" where
  "buildRow (f # fs) (v # vs) row =
     (case parseValue v of
        Inl e \<Rightarrow> Inl e
      | Inr x \<Rightarrow> buildRow fs vs (assign row f x))"
| "buildRow fs vs row = Inr row"

subsection \<open>class Parser: lines and blocks\<close>

text \<open>
  \<open>readLine()\<close>: \<open>null\<close> at the end of the text, otherwise the characters up to the next
  newline, trimmed; the cursor moves past the newline. The result pairs the line with the
  unread text.
\<close>

definition readLine :: "string \<Rightarrow> string option \<times> string" where
  "readLine s =
     (if s = [] then (None, s)
      else (Some (trim (takeWhile (\<lambda>c. c \<noteq> NEWLINE) s)),
            drop 1 (dropWhile (\<lambda>c. c \<noteq> NEWLINE) s)))"

text \<open>\<open>peekLine()\<close> reads a line and restores the cursor.\<close>

definition peekLine :: "string \<Rightarrow> string option" where
  "peekLine s = fst (readLine s)"

text \<open>
  \<open>skipWhitespaceAndComments()\<close> and \<open>skipEmptyLines()\<close>: both step over spaces, tabs,
  carriage returns and newlines, and over a \<open>#\<close> comment up to (not including) its newline.
\<close>

function skipWhitespaceAndComments :: "string \<Rightarrow> string" where
  "skipWhitespaceAndComments s =
     (case s of
        [] \<Rightarrow> []
      | ch # cs \<Rightarrow>
          if ch = CHR '' '' \<or> ch = TAB \<or> ch = CRET \<or> ch = NEWLINE
          then skipWhitespaceAndComments cs
          else if ch = CHR ''#''
          then skipWhitespaceAndComments (dropWhile (\<lambda>c. c \<noteq> NEWLINE) cs)
          else s)"
  by pat_completeness auto
termination
proof (relation "measure length", goal_cases)
  case 1
  show ?case by simp
next
  case (2 s ch cs)
  then show ?case by simp
next
  case (3 s ch cs)
  then show ?case
    using length_dropWhile_le [of "\<lambda>c. c \<noteq> NEWLINE" cs] by simp
qed

declare skipWhitespaceAndComments.simps [simp del]

function skipEmptyLines :: "string \<Rightarrow> string" where
  "skipEmptyLines s =
     (case s of
        [] \<Rightarrow> []
      | ch # cs \<Rightarrow>
          if ch = CHR '' '' \<or> ch = TAB \<or> ch = CRET then skipEmptyLines cs
          else if ch = NEWLINE then skipEmptyLines cs
          else if ch = CHR ''#''
          then skipEmptyLines (dropWhile (\<lambda>c. c \<noteq> NEWLINE) cs)
          else s)"
  by pat_completeness auto
termination
proof (relation "measure length", goal_cases)
  case 1
  show ?case by simp
next
  case (2 s ch cs)
  then show ?case by simp
next
  case (3 s ch cs)
  then show ?case by simp
next
  case (4 s ch cs)
  then show ?case
    using length_dropWhile_le [of "\<lambda>c. c \<noteq> NEWLINE" cs] by simp
qed

declare skipEmptyLines.simps [simp del]

text \<open>\<open>new Block(kind, name)\<close>\<close>

definition newBlock :: "string \<Rightarrow> string \<Rightarrow> Block" where
  "newBlock k n =
     \<lparr>kind = k, name = n, fieldNames = [], fieldInfo = [], rows = [], summaryRows = []\<rparr>"

text \<open>The body of \<open>for (const token of fieldTokens)\<close>: one field definition is pushed.\<close>

definition addField :: "Block \<Rightarrow> string \<Rightarrow> Block" where
  "addField b token =
     (case indexOf token (CHR '':'') of
        Some colonIndex \<Rightarrow>
          (let fieldName = take colonIndex token;
               fieldType = drop (colonIndex + 1) token
           in b\<lparr>fieldNames := fieldNames b @ [fieldName],
                 fieldInfo := fieldInfo b @
                   [\<lparr>fi_name = fieldName, fi_type = Some fieldType,
                     isComputed = (fieldType = ''computed'')\<rparr>]\<rparr>)
      | None \<Rightarrow>
          b\<lparr>fieldNames := fieldNames b @ [token],
            fieldInfo := fieldInfo b @
              [\<lparr>fi_name = token, fi_type = None, isComputed = False\<rparr>]\<rparr>)"

definition addFields :: "Block \<Rightarrow> string list \<Rightarrow> Block" where
  "addFields b tokens = foldl addField b tokens"

lemma readLine_shorter: "s \<noteq> [] \<Longrightarrow> length (snd (readLine s)) < length s"
proof -
  assume ne: "s \<noteq> []"
  have le: "length (dropWhile (\<lambda>c. c \<noteq> NEWLINE) s) \<le> length s"
    by (rule length_dropWhile_le)
  show ?thesis
  proof (cases "dropWhile (\<lambda>c. c \<noteq> NEWLINE) s")
    case Nil
    with ne show ?thesis by (simp add: readLine_def del: dropWhile_eq_Nil_conv)
  next
    case (Cons a as)
    with le ne show ?thesis by (simp add: readLine_def)
  qed
qed

text \<open>
  The data-row loop of \<open>parseBlock\<close> (\<open>while (this.pos < this.text.length)\<close>), with the
  block under construction and the flag \<open>inSummary\<close>. It returns the block and the unread
  text.
\<close>

function parseRows :: "Block \<Rightarrow> bool \<Rightarrow> string \<Rightarrow> ISONSyntaxError + (Block \<times> string)" where
  "parseRows b inSummary s =
     (if s = [] then Inr (b, s)
      else
        (case peekLine s of
           None \<Rightarrow> Inr (b, s)
         | Some line \<Rightarrow>
             if line = [] \<or> matchesHeaderStart line then Inr (b, s)
             else if startsWith line ''#'' then parseRows b inSummary (snd (readLine s))
             else if trim line = ''---'' then parseRows b True (snd (readLine s))
             else
               (case tokenizeLine line of
                  Inl e \<Rightarrow> Inl e
                | Inr values \<Rightarrow>
                    if values = [] then Inr (b, snd (readLine s))
                    else
                      (case buildRow (fieldNames b) values emptyRow of
                         Inl e \<Rightarrow> Inl e
                       | Inr row \<Rightarrow>
                           if inSummary
                           then parseRows (b\<lparr>summaryRows := summaryRows b @ [row]\<rparr>)
                                  inSummary (snd (readLine s))
                           else parseRows (b\<lparr>rows := rows b @ [row]\<rparr>)
                                  inSummary (snd (readLine s))))))"
  by pat_completeness auto
termination
  by (relation "measure (\<lambda>(b, inSummary, s). length s)") (auto simp: readLine_shorter)

declare parseRows.simps [simp del]

text \<open>
  \<open>parseBlock()\<close>: \<open>None\<close> for the \<open>null\<close> it returns on an empty or comment header line.
\<close>

definition parseBlock :: "string \<Rightarrow> ISONSyntaxError + (Block option \<times> string)" where
  "parseBlock s =
     (case readLine s of
        (None, s1) \<Rightarrow> Inr (None, s1)
      | (Some headerLine, s1) \<Rightarrow>
          if headerLine = [] \<or> startsWith headerLine ''#'' then Inr (None, s1)
          else
            (case indexOf headerLine (CHR ''.'') of
               None \<Rightarrow> Inl (InvalidBlockHeader headerLine)
             | Some dotIndex \<Rightarrow>
                 (let k = trim (take dotIndex headerLine);
                      n = trim (drop (dotIndex + 1) headerLine)
                  in if k = [] \<or> n = [] then Inl (InvalidBlockHeader headerLine)
                     else
                       (case readLine (skipEmptyLines s1) of
                          (None, s3) \<Rightarrow> Inr (Some (newBlock k n), s3)
                        | (Some fieldsLine, s3) \<Rightarrow>
                            if fieldsLine = [] then Inr (Some (newBlock k n), s3)
                            else
                              (case tokenizeLine fieldsLine of
                                 Inl e \<Rightarrow> Inl e
                               | Inr fieldTokens \<Rightarrow>
                                   (case parseRows (addFields (newBlock k n) fieldTokens)
                                           False s3 of
                                      Inl e \<Rightarrow> Inl e
                                    | Inr (b, s4) \<Rightarrow> Inr (Some b, s4)))))))"

subsection \<open>class Parser: the document loop\<close>

lemma readLine_le: "length (snd (readLine s)) \<le> length s"
  using readLine_shorter [of s] by (cases "s = []") (simp_all add: readLine_def)

lemma skipEmptyLines_Cons:
  "skipEmptyLines (ch # cs) =
     (if ch = CHR '' '' \<or> ch = TAB \<or> ch = CRET then skipEmptyLines cs
      else if ch = NEWLINE then skipEmptyLines cs
      else if ch = CHR ''#'' then skipEmptyLines (dropWhile (\<lambda>c. c \<noteq> NEWLINE) cs)
      else ch # cs)"
  by (subst skipEmptyLines.simps) simp

lemma skipEmptyLines_Nil: "skipEmptyLines [] = []"
  by (subst skipEmptyLines.simps) simp

lemma skipEmptyLines_le: "length (skipEmptyLines s) \<le> length s"
proof (induction s rule: length_induct)
  case (1 s)
  show ?case
  proof (cases s)
    case Nil
    then show ?thesis by (simp add: skipEmptyLines_Nil)
  next
    case (Cons ch cs)
    have d: "length (dropWhile (\<lambda>c. c \<noteq> NEWLINE) cs) \<le> length cs"
      by (rule length_dropWhile_le)
    have i1: "length (skipEmptyLines cs) \<le> length cs"
      using 1 Cons by simp
    have i2: "length (skipEmptyLines (dropWhile (\<lambda>c. c \<noteq> NEWLINE) cs))
                \<le> length (dropWhile (\<lambda>c. c \<noteq> NEWLINE) cs)"
      using 1 Cons d by simp
    show ?thesis
      unfolding Cons skipEmptyLines_Cons using d i1 i2 by simp
  qed
qed

lemma skipWhitespaceAndComments_Cons:
  "skipWhitespaceAndComments (ch # cs) =
     (if ch = CHR '' '' \<or> ch = TAB \<or> ch = CRET \<or> ch = NEWLINE
      then skipWhitespaceAndComments cs
      else if ch = CHR ''#''
      then skipWhitespaceAndComments (dropWhile (\<lambda>c. c \<noteq> NEWLINE) cs)
      else ch # cs)"
  by (subst skipWhitespaceAndComments.simps) simp

lemma skipWhitespaceAndComments_Nil: "skipWhitespaceAndComments [] = []"
  by (subst skipWhitespaceAndComments.simps) simp

lemma skipWhitespaceAndComments_le: "length (skipWhitespaceAndComments s) \<le> length s"
proof (induction s rule: length_induct)
  case (1 s)
  show ?case
  proof (cases s)
    case Nil
    then show ?thesis by (simp add: skipWhitespaceAndComments_Nil)
  next
    case (Cons ch cs)
    have d: "length (dropWhile (\<lambda>c. c \<noteq> NEWLINE) cs) \<le> length cs"
      by (rule length_dropWhile_le)
    have i1: "length (skipWhitespaceAndComments cs) \<le> length cs"
      using 1 Cons by simp
    have i2: "length (skipWhitespaceAndComments (dropWhile (\<lambda>c. c \<noteq> NEWLINE) cs))
                \<le> length (dropWhile (\<lambda>c. c \<noteq> NEWLINE) cs)"
      using 1 Cons d by simp
    show ?thesis
      unfolding Cons skipWhitespaceAndComments_Cons using d i1 i2 by simp
  qed
qed

lemma parseRows_le: "parseRows b inS s = Inr (b', s') \<Longrightarrow> length s' \<le> length s"
proof (induction s arbitrary: b inS rule: length_induct)
  case (1 s)
  show ?case
  proof (cases "s = []")
    case True
    with "1.prems" show ?thesis
      by (subst (asm) parseRows.simps) simp
  next
    case False
    define t where "t = snd (readLine s)"
    have lt: "length t < length s"
      unfolding t_def using False by (rule readLine_shorter)
    have rec: "length s' \<le> length s" if "parseRows c f t = Inr (b', s')" for c f
      using "1.IH" lt that by (meson le_trans less_imp_le)
    have unf: "parseRows b inS s =
      (case peekLine s of
         None \<Rightarrow> Inr (b, s)
       | Some line \<Rightarrow>
           if line = [] \<or> matchesHeaderStart line then Inr (b, s)
           else if startsWith line ''#'' then parseRows b inS t
           else if trim line = ''---'' then parseRows b True t
           else
             (case tokenizeLine line of
                Inl e \<Rightarrow> Inl e
              | Inr values \<Rightarrow>
                  if values = [] then Inr (b, t)
                  else
                    (case buildRow (fieldNames b) values emptyRow of
                       Inl e \<Rightarrow> Inl e
                     | Inr row \<Rightarrow>
                         if inS
                         then parseRows (b\<lparr>summaryRows := summaryRows b @ [row]\<rparr>) inS t
                         else parseRows (b\<lparr>rows := rows b @ [row]\<rparr>) inS t)))"
      unfolding t_def using False by (subst parseRows.simps) simp
    show ?thesis
    proof (cases "peekLine s")
      case None
      with "1.prems" unf show ?thesis by simp
    next
      case (Some line)
      note pl = Some
      show ?thesis
      proof (cases "line = [] \<or> matchesHeaderStart line")
        case True
        with "1.prems" unf pl show ?thesis by auto
      next
        case nh: False
        show ?thesis
        proof (cases "startsWith line ''#''")
          case True
          with "1.prems" unf pl nh rec show ?thesis by simp
        next
          case nc: False
          show ?thesis
          proof (cases "trim line = ''---''")
            case True
            with "1.prems" unf pl nh nc rec show ?thesis by simp
          next
            case ns: False
            show ?thesis
            proof (cases "tokenizeLine line")
              case (Inl e)
              with "1.prems" unf pl nh nc ns show ?thesis by simp
            next
              case (Inr vs)
              note tl = Inr
              show ?thesis
              proof (cases "vs = []")
                case True
                with "1.prems" unf pl nh nc ns tl lt show ?thesis by auto
              next
                case nv: False
                show ?thesis
                proof (cases "buildRow (fieldNames b) vs emptyRow")
                  case (Inl e)
                  with "1.prems" unf pl nh nc ns tl nv show ?thesis by simp
                next
                  case (Inr row)
                  with "1.prems" unf pl nh nc ns tl nv rec show ?thesis
                    by (cases inS) simp_all
                qed
              qed
            qed
          qed
        qed
      qed
    qed
  qed
qed

lemma parseBlock_shorter:
  assumes "parseBlock s = Inr (ob, s')" and "s \<noteq> []"
  shows "length s' < length s"
proof -
  obtain l s1 where r1: "readLine s = (l, s1)"
    by (cases "readLine s")
  have s1: "length s1 < length s"
    using readLine_shorter [OF assms(2)] r1 by simp
  obtain l3 s3 where r3: "readLine (skipEmptyLines s1) = (l3, s3)"
    by (cases "readLine (skipEmptyLines s1)")
  have s3: "length s3 \<le> length s1"
    using readLine_le [of "skipEmptyLines s1"] skipEmptyLines_le [of s1] r3 by simp
  from assms(1) show ?thesis
    unfolding parseBlock_def r1
    using s1 s3 r3
    by (auto split: option.splits if_splits sum.splits simp: Let_def dest!: parseRows_le)
qed

text \<open>
  The loop of \<open>parse()\<close>: \<open>doc.blocks\<close> so far and the unread text. A block is pushed
  whenever \<open>parseBlock\<close> returns one.
\<close>

function parseLoop :: "Block list \<Rightarrow> string \<Rightarrow> ISONSyntaxError + Document" where
  "parseLoop bs s =
     (if s = [] then Inr \<lparr>blocks = bs\<rparr>
      else
        (case parseBlock s of
           Inl e \<Rightarrow> Inl e
         | Inr (None, s') \<Rightarrow> parseLoop bs (skipWhitespaceAndComments s')
         | Inr (Some block, s') \<Rightarrow> parseLoop (bs @ [block]) (skipWhitespaceAndComments s')))"
  by pat_completeness auto
termination
proof (relation "measure (\<lambda>(bs, s). length s)", goal_cases)
  case 1
  show ?case by simp
next
  case (2 bs s x a s')
  then show ?case
    using parseBlock_shorter [of s None s'] skipWhitespaceAndComments_le [of s'] by simp
next
  case (3 bs s x a s' block)
  then show ?case
    using parseBlock_shorter [of s "Some block" s'] skipWhitespaceAndComments_le [of s']
    by simp
qed

declare parseLoop.simps [simp del]

definition parse :: "string \<Rightarrow> ISONSyntaxError + Document" where
  "parse text = parseLoop [] (skipWhitespaceAndComments text)"

subsection \<open>class Document\<close>


subsection \<open>class Serializer\<close>

definition needsQuotes :: "string \<Rightarrow> bool" where
  "needsQuotes s =
     (includesChar s (CHR '' '') \<or>
      includesChar s TAB \<or>
      includesChar s NEWLINE \<or>
      includesChar s DQUOTE \<or>
      includesChar s BSLASH \<or>
      s = ''true'' \<or>
      s = ''false'' \<or>
      s = ''null'' \<or>
      startsWith s '':'' \<or>
      matchesNumber s)"

definition escapeString :: "string \<Rightarrow> string" where
  "escapeString s =
     replaceAll CRET [BSLASH, CHR ''r'']
       (replaceAll TAB [BSLASH, CHR ''t'']
         (replaceAll NEWLINE [BSLASH, CHR ''n'']
           (replaceAll DQUOTE [BSLASH, DQUOTE]
             (replaceAll BSLASH [BSLASH, BSLASH] s))))"

definition serializeString :: "string \<Rightarrow> string" where
  "serializeString s =
     (if \<not> needsQuotes s then s else [DQUOTE] @ escapeString s @ [DQUOTE])"

text \<open>Collecting results in order; the first thrown error ends the loop.\<close>

fun collect :: "('e + 'a) list \<Rightarrow> 'e + 'a list" where
  "collect [] = Inr []"
| "collect (x # xs) =
     (case x of
        Inl e \<Rightarrow> Inl e
      | Inr y \<Rightarrow> (case collect xs of Inl e \<Rightarrow> Inl e | Inr ys \<Rightarrow> Inr (y # ys)))"

text \<open>
  \<open>serializeValue(value)\<close>; the argument is the read \<open>row[field]\<close>. A function or
  \<open>Object.prototype\<close> passes every test and reaches \<open>serializeString\<close>, whose
  \<open>s.includes\<close> is not a function.
\<close>

definition serializeValue :: "PropertyRead \<Rightarrow> JsError + string" where
  "serializeValue v =
     (case v of
        Undefined \<Rightarrow> Inr ''null''
      | Val VNull \<Rightarrow> Inr ''null''
      | Val (VBool b) \<Rightarrow> Inr (if b then ''true'' else ''false'')
      | Val (VNum n) \<Rightarrow> Inr (numberToString n)
      | Val (VRef r) \<Rightarrow> Inr (toIson r)
      | Val (VStr s) \<Rightarrow> Inr (serializeString s)
      | Function \<Rightarrow> Inl TypeError
      | ObjectPrototypeObject \<Rightarrow> Inl TypeError)"

text \<open>
  \<open>calculateWidths(block)\<close>: the field-name lengths, raised row by row to the widest
  serialized value of each column.
\<close>

fun widenBy :: "string list \<Rightarrow> nat list \<Rightarrow> Row \<Rightarrow> JsError + nat list" where
  "widenBy (f # fs) (w # ws) row =
     (case serializeValue (getProperty row f) of
        Inl e \<Rightarrow> Inl e
      | Inr str \<Rightarrow>
          (case widenBy fs ws row of
             Inl e \<Rightarrow> Inl e
           | Inr ws' \<Rightarrow> Inr (max w (length str) # ws')))"
| "widenBy fs ws row = Inr []"

fun widenAll :: "string list \<Rightarrow> nat list \<Rightarrow> Row list \<Rightarrow> JsError + nat list" where
  "widenAll fs widths [] = Inr widths"
| "widenAll fs widths (row # rs) =
     (case widenBy fs widths row of
        Inl e \<Rightarrow> Inl e
      | Inr widths' \<Rightarrow> widenAll fs widths' rs)"

definition calculateWidths :: "Block \<Rightarrow> JsError + nat list" where
  "calculateWidths b =
     widenAll (fieldNames b) (map length (fieldNames b)) (rows b @ summaryRows b)"

text \<open>
  \<open>serializeRow(row, fields, widths)\<close>. \<open>padEnd(widths[i])\<close> with \<open>i\<close> beyond
  \<open>widths\<close> pads to \<open>undefined\<close>, which leaves the string as it is.
\<close>

definition serializeCell ::
  "bool \<Rightarrow> Row \<Rightarrow> string list \<Rightarrow> nat list \<Rightarrow> nat \<Rightarrow> JsError + string" where
  "serializeCell alignColumns row fs widths i =
     (case serializeValue (getProperty row (fs ! i)) of
        Inl e \<Rightarrow> Inl e
      | Inr str \<Rightarrow>
          if alignColumns \<and> 0 < length widths \<and> i + 1 < length fs
          then Inr (if i < length widths then padEnd str (widths ! i) else str)
          else Inr str)"

definition serializeRow ::
  "bool \<Rightarrow> Row \<Rightarrow> string list \<Rightarrow> nat list \<Rightarrow> JsError + string" where
  "serializeRow alignColumns row fs widths =
     (case collect (map (serializeCell alignColumns row fs widths) [0..<length fs]) of
        Inl e \<Rightarrow> Inl e
      | Inr cells \<Rightarrow> Inr (join cells '' ''))"

text \<open>\<open>if (fi.type)\<close>: an undefined and an empty type annotation are both falsy.\<close>

definition fieldDef :: "FieldInfo \<Rightarrow> string" where
  "fieldDef fi =
     (case fi_type fi of
        None \<Rightarrow> fi_name fi
      | Some t \<Rightarrow> if t = [] then fi_name fi else fi_name fi @ '':'' @ t)"

definition serializeBlock :: "bool \<Rightarrow> Block \<Rightarrow> JsError + string" where
  "serializeBlock alignColumns b =
     (case (if alignColumns then calculateWidths b else Inr []) of
        Inl e \<Rightarrow> Inl e
      | Inr widths \<Rightarrow>
          (case collect (map (\<lambda>row. serializeRow alignColumns row (fieldNames b) widths)
                          (rows b)) of
             Inl e \<Rightarrow> Inl e
           | Inr dataLines \<Rightarrow>
               (case collect (map (\<lambda>row. serializeRow alignColumns row (fieldNames b) widths)
                               (summaryRows b)) of
                  Inl e \<Rightarrow> Inl e
                | Inr summaryLines \<Rightarrow>
                    Inr (join
                      ([kind b @ ''.'' @ name b,
                        join (map fieldDef (fieldInfo b)) '' ''] @
                       dataLines @
                       (if summaryRows b \<noteq> [] then [''---''] @ summaryLines else []))
                      [NEWLINE]))))"

definition serialize :: "bool \<Rightarrow> Document \<Rightarrow> JsError + string" where
  "serialize alignColumns doc =
     (case collect (map (serializeBlock alignColumns) (blocks doc)) of
        Inl e \<Rightarrow> Inl e
      | Inr parts \<Rightarrow> Inr (join parts [NEWLINE, NEWLINE]))"

definition dumps :: "Document \<Rightarrow> bool \<Rightarrow> JsError + string" where
  "dumps doc alignColumns = serialize alignColumns doc"

subsection \<open>class ISONLParser\<close>

text \<open>
  The quoted branch of \<open>tokenizeValues\<close>, on the characters after the opening quote: the
  inner loop stops at a quote or at the end of the line, and \<open>i++\<close> then steps over the
  closing quote (or past the end). No error is raised here.
\<close>

fun isonlQuoted :: "string \<Rightarrow> string \<Rightarrow> string \<times> string" where
  "isonlQuoted [] result = (result, [])"
| "isonlQuoted (c # cs) result =
     (if c = DQUOTE then (result, cs)
      else if c = BSLASH then
        (case cs of
           [] \<Rightarrow> isonlQuoted cs (result @ [c])
         | next # cs' \<Rightarrow> isonlQuoted cs' (result @ [unescape next]))
      else isonlQuoted cs (result @ [c]))"

lemma isonlQuoted_le: "isonlQuoted s acc = (tok, rest) \<Longrightarrow> length rest \<le> length s"
  by (induction s acc rule: isonlQuoted.induct) (auto split: if_splits list.splits)

function tokenizeValues :: "string \<Rightarrow> string list" where
  "tokenizeValues s =
     (case dropWhile isSpaceTab s of
        [] \<Rightarrow> []
      | c # cs \<Rightarrow>
          if c = DQUOTE then
            (case isonlQuoted cs [] of
               (result, rest) \<Rightarrow> result # tokenizeValues rest)
          else (c # takeWhile (\<lambda>x. \<not> isSpaceTab x) cs) #
               tokenizeValues (dropWhile (\<lambda>x. \<not> isSpaceTab x) cs))"
  by pat_completeness auto
termination
proof (relation "measure length", goal_cases)
  case 1
  show ?case by simp
next
  case (2 s c cs result rest)
  have "length rest \<le> length cs"
    using 2 isonlQuoted_le [of cs "[]" result rest] by simp
  moreover have "length (c # cs) \<le> length s"
    using 2 length_dropWhile_le [of isSpaceTab s] by simp
  ultimately show ?case by simp
next
  case (3 s c cs)
  have "length (dropWhile (\<lambda>x. \<not> isSpaceTab x) cs) \<le> length cs"
    by (rule length_dropWhile_le)
  moreover have "length (c # cs) \<le> length s"
    using 3 length_dropWhile_le [of isSpaceTab s] by simp
  ultimately show ?case by simp
qed

declare tokenizeValues.simps [simp del]

text \<open>\<open>ISONLParser.parseValue\<close>: as the parser's, but a reference never throws.\<close>

definition isonlParseValue :: "string \<Rightarrow> Value" where
  "isonlParseValue token =
     (if token = ''null'' \<or> token = ''~'' then VNull
      else if token = ''true'' then VBool True
      else if token = ''false'' then VBool False
      else if startsWith token '':'' then
        (case split (drop 1 token) (CHR '':'') of
           [p0] \<Rightarrow> VRef \<lparr>ref_id = p0, ref_type = None\<rparr>
         | p0 # p1 # _ \<Rightarrow> VRef \<lparr>ref_id = p1, ref_type = Some p0\<rparr>
         | [] \<Rightarrow> VRef \<lparr>ref_id = [], ref_type = None\<rparr>)
      else if matchesInt token then VNum (parseInt token)
      else if matchesDecimal token then VNum (parseFloat token)
      else VStr token)"

fun isonlBuildRow :: "string list \<Rightarrow> string list \<Rightarrow> Row \<Rightarrow> Row" where
  "isonlBuildRow (f # fs) (v # vs) row = isonlBuildRow fs vs (assign row f (isonlParseValue v))"
| "isonlBuildRow fs vs row = row"

text \<open>\<open>s.split(/\s+/)\<close>: the parts between maximal runs of white space.\<close>

function splitWhitespaceFrom :: "string \<Rightarrow> string \<Rightarrow> string list" where
  "splitWhitespaceFrom cur s =
     (case s of
        [] \<Rightarrow> [cur]
      | c # cs \<Rightarrow>
          if isJsSpace c then cur # splitWhitespaceFrom [] (dropWhile isJsSpace cs)
          else splitWhitespaceFrom (cur @ [c]) cs)"
  by pat_completeness auto
termination
  apply (relation "measure (\<lambda>(cur, s). length s)")
    apply simp
   apply (simp add: le_imp_less_Suc length_dropWhile_le)
  apply simp
  done

declare splitWhitespaceFrom.simps [simp del]

definition splitWhitespace :: "string \<Rightarrow> string list" where
  "splitWhitespace s = splitWhitespaceFrom [] s"

text \<open>
  \<open>blockMap.get(key)\<close> with \<open>key = kind + "." + name\<close>: the map and \<open>doc.blocks\<close> hold the
  same block objects, so the lookup is the index in \<open>doc.blocks\<close> of the block with that
  key.
\<close>

fun findBlockIndex :: "Block list \<Rightarrow> string \<Rightarrow> nat option" where
  "findBlockIndex [] key = None"
| "findBlockIndex (b # bs) key =
     (if kind b @ ''.'' @ name b = key then Some 0
      else map_option Suc (findBlockIndex bs key))"

text \<open>The body of the loop over \<open>text.split("\n")\<close> in \<open>ISONLParser.parse\<close>.\<close>

definition isonlLine :: "Block list \<Rightarrow> string \<Rightarrow> ISONSyntaxError + Block list" where
  "isonlLine bs line =
     (let trimmed = trim line
      in if trimmed = [] \<or> startsWith trimmed ''#'' then Inr bs
         else
           (case split trimmed (CHR ''|'') of
              [header, fieldsPart, valuesPart] \<Rightarrow>
                (case indexOf header (CHR ''.'') of
                   None \<Rightarrow> Inl (InvalidISONLHeader header)
                 | Some dotIndex \<Rightarrow>
                     (let k = take dotIndex header;
                          n = drop (dotIndex + 1) header;
                          key = k @ ''.'' @ n;
                          values = tokenizeValues valuesPart
                      in case findBlockIndex bs key of
                           Some i \<Rightarrow>
                             Inr (bs[i := (bs ! i)\<lparr>rows := rows (bs ! i) @
                                    [isonlBuildRow (fieldNames (bs ! i)) values emptyRow]\<rparr>])
                         | None \<Rightarrow>
                             (let block = addFields (newBlock k n)
                                            (splitWhitespace (trim fieldsPart))
                              in Inr (bs @ [block\<lparr>rows := rows block @
                                     [isonlBuildRow (fieldNames block) values emptyRow]\<rparr>]))))
            | _ \<Rightarrow> Inl (InvalidISONLLine line)))"

fun isonlLines :: "Block list \<Rightarrow> string list \<Rightarrow> ISONSyntaxError + Block list" where
  "isonlLines bs [] = Inr bs"
| "isonlLines bs (line # ls) =
     (case isonlLine bs line of
        Inl e \<Rightarrow> Inl e
      | Inr bs' \<Rightarrow> isonlLines bs' ls)"

definition loadsIsonl :: "string \<Rightarrow> ISONSyntaxError + Document" where
  "loadsIsonl text =
     (case isonlLines [] (split text NEWLINE) of
        Inl e \<Rightarrow> Inl e
      | Inr bs \<Rightarrow> Inr \<lparr>blocks = bs\<rparr>)"

subsection \<open>Predicates used in the properties\<close>

text \<open>
  The quoting predicate as the specification words it: the string contains a space, tab,
  double quote or newline; equals \<open>true\<close>, \<open>false\<close> or \<open>null\<close>; starts with \<open>:\<close>; is
  empty; or matches the integer or the decimal pattern of \<open>parseValue\<close>.
\<close>

definition claimedNeedsQuotes :: "string \<Rightarrow> bool" where
  "claimedNeedsQuotes s =
     (CHR '' '' \<in> set s \<or> TAB \<in> set s \<or> DQUOTE \<in> set s \<or> NEWLINE \<in> set s \<or>
      s = ''true'' \<or> s = ''false'' \<or> s = ''null'' \<or>
      startsWith s '':'' \<or>
      s = [] \<or>
      matchesInt s \<or> matchesDecimal s)"



text \<open>
  A line that the row loop turns into a row over the fields \<open>fs\<close>: it holds no newline,
  and after trimming it is not empty, not the start of a block, not a comment and not the
  separator, and its tokens give a row.
\<close>

definition dataLine :: "string list \<Rightarrow> string \<Rightarrow> bool" where
  "dataLine fs l =
     (NEWLINE \<notin> set l \<and>
      (let t = trim l
       in t \<noteq> [] \<and> \<not> matchesHeaderStart t \<and> \<not> startsWith t ''#'' \<and> trim t \<noteq> ''---'' \<and>
          (case tokenizeLine t of
             Inl e \<Rightarrow> False
           | Inr vs \<Rightarrow>
               vs \<noteq> [] \<and>
               (case buildRow fs vs emptyRow of Inl e \<Rightarrow> False | Inr row \<Rightarrow> True))))"

text \<open>
  The row of such a line.
\<close>

definition rowOfLine :: "string list \<Rightarrow> string \<Rightarrow> Row" where
  "rowOfLine fs l =
     (case tokenizeLine (trim l) of
        Inl e \<Rightarrow> emptyRow
      | Inr vs \<Rightarrow>
          (case buildRow fs vs emptyRow of Inl e \<Rightarrow> emptyRow | Inr row \<Rightarrow> row))"

text \<open>Lines written one after the other, each ended by a newline.\<close>

definition linesText :: "string list \<Rightarrow> string" where
  "linesText ls = concat (map (\<lambda>l. l @ [NEWLINE]) ls)"

text \<open>
  Text at which the row loop stops without reading on: the end of the input, a blank line,
  or a line that the loop takes for the header of a new block.
\<close>

definition rowsEnd :: "string \<Rightarrow> bool" where
  "rowsEnd tail =
     (case peekLine tail of
        None \<Rightarrow> True
      | Some line \<Rightarrow> line = [] \<or> matchesHeaderStart line)"

text \<open>A token that \<open>parseValue\<close> accepts (anything but a reference of three or more parts).\<close>

definition isValueToken :: "string \<Rightarrow> bool" where
  "isValueToken v = (case parseValue v of Inl e \<Rightarrow> False | Inr x \<Rightarrow> True)"

text \<open>The tokens of a line.\<close>

definition tokensOf :: "string \<Rightarrow> string list" where
  "tokensOf l = (case tokenizeLine (trim l) of Inl e \<Rightarrow> [] | Inr vs \<Rightarrow> vs)"

text \<open>
  A data line, described by its text alone: it holds no newline, and after trimming it is
  not empty, not the start of a block, not a comment and not the separator; its quotes are
  closed, it has a token, and each token that meets a declared field is a value token.
  Nothing is asked of the number of tokens.
\<close>

definition validLine :: "string list \<Rightarrow> string \<Rightarrow> bool" where
  "validLine fs l =
     (NEWLINE \<notin> set l \<and>
      (let t = trim l
       in t \<noteq> [] \<and> \<not> matchesHeaderStart t \<and> \<not> startsWith t ''#'' \<and> trim t \<noteq> ''---'' \<and>
          (case tokenizeLine t of
             Inl e \<Rightarrow> False
           | Inr vs \<Rightarrow> vs \<noteq> [] \<and> list_all isValueToken (take (length fs) vs))))"

text \<open>
  A row that holds exactly the leading fields: it is a plain object; its own keys are the
  first \<open>min(#tokens, #fields)\<close> declared fields; each of these fields that is not declared
  again further on holds the value of the token at its position; and each field beyond the
  tokens reads as \<open>undefined\<close> and is serialized as \<open>null\<close>, unless its name is a member
  of \<open>Object.prototype\<close>.
\<close>

definition holdsLeadingFields :: "string list \<Rightarrow> string list \<Rightarrow> Row \<Rightarrow> bool" where
  "holdsLeadingFields fs vs row =
     (proto row = ObjectPrototype \<and>
      dom (own row) = set (take (length vs) fs) \<and>
      list_all
        (\<lambda>i. fs ! i \<in> set (drop (Suc i) (take (length vs) fs)) \<or>
             (case parseValue (vs ! i) of
                Inl e \<Rightarrow> False
              | Inr x \<Rightarrow> getProperty row (fs ! i) = Val x))
        [0..<min (length fs) (length vs)] \<and>
      list_all
        (\<lambda>f. f \<in> set (take (length vs) fs) \<or> f \<in> set objectPrototypeMethods \<or>
             (getProperty row f = Undefined \<and>
              serializeValue (getProperty row f) = Inr ''null''))
        (drop (length vs) fs))"

text \<open>
  The text of one block: a header line, a field line and data lines. \<open>kindOf\<close> and
  \<open>nameOf\<close> cut the header at its first dot, as \<open>parseBlock\<close> does.
\<close>

type_synonym BlockText = "string \<times> string \<times> string list"

definition kindOf :: "string \<Rightarrow> string" where
  "kindOf h =
     (case indexOf (trim h) (CHR ''.'') of
        None \<Rightarrow> []
      | Some d \<Rightarrow> trim (take d (trim h)))"

definition nameOf :: "string \<Rightarrow> string" where
  "nameOf h =
     (case indexOf (trim h) (CHR ''.'') of
        None \<Rightarrow> []
      | Some d \<Rightarrow> trim (drop (d + 1) (trim h)))"

text \<open>A line whose first character is neither blank space nor the start of a comment.\<close>

definition startsLine :: "string \<Rightarrow> bool" where
  "startsLine l =
     (case l of
        [] \<Rightarrow> False
      | c # cs \<Rightarrow> c \<noteq> CHR '' '' \<and> c \<noteq> TAB \<and> c \<noteq> CRET \<and> c \<noteq> NEWLINE \<and> c \<noteq> CHR ''#'')"

text \<open>A header line: it has a dot with a non-empty kind before it and a non-empty name after it.\<close>

definition headerLineOK :: "string \<Rightarrow> bool" where
  "headerLineOK h =
     (NEWLINE \<notin> set h \<and> startsLine h \<and> trim h \<noteq> [] \<and> \<not> startsWith (trim h) ''#'' \<and>
      kindOf h \<noteq> [] \<and> nameOf h \<noteq> [])"

text \<open>A field line: not empty, and its quotes are closed.\<close>

definition fieldLineOK :: "string \<Rightarrow> bool" where
  "fieldLineOK f =
     (NEWLINE \<notin> set f \<and> startsLine f \<and> trim f \<noteq> [] \<and>
      (case tokenizeLine (trim f) of Inl e \<Rightarrow> False | Inr toks \<Rightarrow> True))"

text \<open>The block that a block text stands for: its header and fields, and one row per data line.\<close>

fun headOf :: "BlockText \<Rightarrow> Block" where
  "headOf (h, f, ls) = addFields (newBlock (kindOf h) (nameOf h)) (tokensOf f)"

fun blockOf :: "BlockText \<Rightarrow> Block" where
  "blockOf (h, f, ls) =
     (headOf (h, f, ls))\<lparr>rows := map (rowOfLine (fieldNames (headOf (h, f, ls)))) ls\<rparr>"

fun blockText :: "BlockText \<Rightarrow> string" where
  "blockText (h, f, ls) = h @ [NEWLINE] @ f @ [NEWLINE] @ linesText ls"

fun goodBlock :: "BlockText \<Rightarrow> bool" where
  "goodBlock (h, f, ls) =
     (headerLineOK h \<and> fieldLineOK f \<and>
      list_all (validLine (fieldNames (headOf (h, f, ls)))) ls)"

text \<open>
  A document text: block texts in order, each marked with whether a blank line follows it.
  It is well formed when every block is, and every block that no blank line follows is the
  last one or stands before a header that starts with lower-case letters and a dot.
\<close>

fun docText :: "(BlockText \<times> bool) list \<Rightarrow> string" where
  "docText [] = []"
| "docText ((bt, blank) # rest) =
     blockText bt @ (if blank then [NEWLINE] else []) @ docText rest"

fun goodDoc :: "(BlockText \<times> bool) list \<Rightarrow> bool" where
  "goodDoc [] = True"
| "goodDoc ((bt, blank) # rest) =
     (goodBlock bt \<and>
      (blank \<or>
       (case rest of
          [] \<Rightarrow> True
        | ((h, f, ls), b) # others \<Rightarrow> matchesHeaderStart (trim h))) \<and>
      goodDoc rest)"

section \<open>Properties\<close>

subsection \<open>References\<close>

lemma split_no_sep: "c \<notin> set s \<Longrightarrow> split s c = [s]"
  by (induction s) auto

lemma split_at_sep: "c \<notin> set x \<Longrightarrow> split (x @ c # r) c = x # split r c"
  by (induction x) auto

lemma upper_not_lower: "isUpperOrUnderscore c \<Longrightarrow> \<not> isLower c"
  by (auto simp: isUpperOrUnderscore_def isLower_def)

lemma toUpperCase_upper: "list_all isUpperOrUnderscore t \<Longrightarrow> toUpperCase t = t"
  by (induction t) (auto simp: toUpperCase_def toUpperChar_def upper_not_lower)

lemma isRelationship_iff:
  "isRelationship \<lparr>ref_id = i, ref_type = Some x\<rparr> = (x \<noteq> [] \<and> list_all isUpperOrUnderscore x)"
  by (auto simp: isRelationship_def matchesUpper_def toUpperCase_upper)

lemma parseReference_two:
  assumes "CHR '':'' \<notin> set x" and "CHR '':'' \<notin> set i"
  shows "parseReference ('':'' @ x @ '':'' @ i) = Inr \<lparr>ref_id = i, ref_type = Some x\<rparr>"
  using assms by (simp add: parseReference_def split_at_sep split_no_sep)

text \<open>
  Claim C5. Parsing \<open>:OWNS:5\<close> gives a reference with relationship \<open>OWNS\<close> and id
  \<open>5\<close>; \<open>:user:42\<close> gives namespace \<open>user\<close> and id \<open>42\<close>; \<open>:7\<close> gives the bare id
  \<open>7\<close> with neither. For every two-part reference \<open>:x:i\<close> the middle segment \<open>x\<close> is the
  relationship exactly when it is non-empty and made of ASCII upper-case letters and
  underscores, and the namespace otherwise; no reference has both a namespace and a
  relationship.
\<close>

theorem reference_case_rule:
  assumes "CHR '':'' \<notin> set x" and "CHR '':'' \<notin> set i"
  shows "(\<exists>r. parseReference '':OWNS:5'' = Inr r \<and> ref_id r = ''5'' \<and>
            relationshipType r = Some ''OWNS'' \<and> getNamespace r = None) \<and>
         (\<exists>r. parseReference '':user:42'' = Inr r \<and> ref_id r = ''42'' \<and>
            getNamespace r = Some ''user'' \<and> relationshipType r = None) \<and>
         (\<exists>r. parseReference '':7'' = Inr r \<and> ref_id r = ''7'' \<and>
            getNamespace r = None \<and> relationshipType r = None) \<and>
         (\<exists>r. parseReference ('':'' @ x @ '':'' @ i) = Inr r \<and> ref_id r = i \<and>
            ((relationshipType r = Some x) =
               (x \<noteq> [] \<and> list_all (\<lambda>c. c \<in> set ''ABCDEFGHIJKLMNOPQRSTUVWXYZ_'') x)) \<and>
            ((getNamespace r = Some x) =
               (\<not> (x \<noteq> [] \<and> list_all (\<lambda>c. c \<in> set ''ABCDEFGHIJKLMNOPQRSTUVWXYZ_'') x)))) \<and>
         (getNamespace r' = None \<or> relationshipType r' = None)"
proof -
  have a: "parseReference '':OWNS:5'' = Inr \<lparr>ref_id = ''5'', ref_type = Some ''OWNS''\<rparr>"
    using parseReference_two [of "''OWNS''" "''5''"] by simp
  have b: "parseReference '':user:42'' = Inr \<lparr>ref_id = ''42'', ref_type = Some ''user''\<rparr>"
    using parseReference_two [of "''user''" "''42''"] by simp
  have c: "parseReference '':7'' = Inr \<lparr>ref_id = ''7'', ref_type = None\<rparr>"
    by (simp add: parseReference_def)
  have up: "isUpperOrUnderscore = (\<lambda>c. c \<in> set ''ABCDEFGHIJKLMNOPQRSTUVWXYZ_'')"
    by (rule ext) (simp add: isUpperOrUnderscore_def)
  have ra: "isRelationship \<lparr>ref_id = ''5'', ref_type = Some ''OWNS''\<rparr>"
    by (simp add: isRelationship_iff isUpperOrUnderscore_def)
  have rb: "\<not> isRelationship \<lparr>ref_id = ''42'', ref_type = Some ''user''\<rparr>"
    by (simp add: isRelationship_iff isUpperOrUnderscore_def)
  have rc: "\<not> isRelationship \<lparr>ref_id = ''7'', ref_type = None\<rparr>"
    by (simp add: isRelationship_def)
  have g: "\<exists>r. parseReference ('':'' @ x @ '':'' @ i) = Inr r \<and> ref_id r = i \<and>
            ((relationshipType r = Some x) =
               (x \<noteq> [] \<and> list_all (\<lambda>c. c \<in> set ''ABCDEFGHIJKLMNOPQRSTUVWXYZ_'') x)) \<and>
            ((getNamespace r = Some x) =
               (\<not> (x \<noteq> [] \<and> list_all (\<lambda>c. c \<in> set ''ABCDEFGHIJKLMNOPQRSTUVWXYZ_'') x)))"
    using parseReference_two [OF assms] isRelationship_iff [of i x]
    by (auto simp: relationshipType_def getNamespace_def up)
  have e: "getNamespace r' = None \<or> relationshipType r' = None"
    by (simp add: getNamespace_def relationshipType_def)
  show ?thesis
    using a b c ra rb rc g e by (simp add: relationshipType_def getNamespace_def)
qed

theorem reference_case_rule_witness:
  "\<exists>r. parseReference '':MEMBER_OF:10'' = Inr r \<and> ref_id r = ''10'' \<and>
       relationshipType r = Some ''MEMBER_OF''"
proof -
  have h1: "CHR '':'' \<notin> set ''MEMBER_OF''" by simp
  have h2: "CHR '':'' \<notin> set ''10''" by simp
  from reference_case_rule [OF h1 h2]
  obtain r where "parseReference ('':'' @ ''MEMBER_OF'' @ '':'' @ ''10'') = Inr r"
    and "ref_id r = ''10''"
    and "(relationshipType r = Some ''MEMBER_OF'') =
           (''MEMBER_OF'' \<noteq> [] \<and>
            list_all (\<lambda>c. c \<in> set ''ABCDEFGHIJKLMNOPQRSTUVWXYZ_'') ''MEMBER_OF'')"
    by blast
  then show ?thesis by simp
qed


subsection \<open>The serializer's quoting predicate\<close>

lemma matchesNumber_iff: "matchesNumber s = (matchesInt s \<or> matchesDecimal s)"
proof (cases "dropWhile isDigit (stripMinus s)")
  case Nil
  then have all: "\<forall>c\<in>set (stripMinus s). isDigit c"
    by (simp add: dropWhile_eq_Nil_conv)
  then have tw: "takeWhile isDigit (stripMinus s) = stripMinus s"
    by (simp add: takeWhile_eq_all_conv)
  show ?thesis
    unfolding matchesNumber_def matchesInt_def matchesDecimal_def Let_def Nil tw
    using all by (auto simp: list_all_iff)
next
  case (Cons c fp)
  then have "c \<in> set (stripMinus s)" and "\<not> isDigit c"
    using set_dropWhileD [of c isDigit "stripMinus s"] hd_dropWhile [of isDigit "stripMinus s"]
    by auto
  then have "\<not> list_all isDigit (stripMinus s)"
    by (auto simp: list_all_iff)
  then show ?thesis
    unfolding matchesNumber_def matchesInt_def matchesDecimal_def Let_def Cons
    by simp
qed

lemma replaceAll_length: "r \<noteq> [] \<Longrightarrow> length s \<le> length (replaceAll c r s)"
proof (induction s)
  case Nil
  show ?case by (simp add: replaceAll_def)
next
  case (Cons x xs)
  then have "length xs \<le> length (replaceAll c r xs)" by simp
  moreover have "1 \<le> length r" using Cons.prems by (cases r) simp_all
  ultimately show ?case by (simp add: replaceAll_def)
qed

lemma escapeString_length: "length s \<le> length (escapeString s)"
proof -
  have step: "length t \<le> length (replaceAll c [a, b] t)" for c a b t
    by (rule replaceAll_length) simp
  have "length s \<le> length (replaceAll BSLASH [BSLASH, BSLASH] s)"
    by (rule step)
  also have "\<dots> \<le> length (replaceAll DQUOTE [BSLASH, DQUOTE]
                        (replaceAll BSLASH [BSLASH, BSLASH] s))"
    by (rule step)
  also have "\<dots> \<le> length (replaceAll NEWLINE [BSLASH, CHR ''n'']
                        (replaceAll DQUOTE [BSLASH, DQUOTE]
                          (replaceAll BSLASH [BSLASH, BSLASH] s)))"
    by (rule step)
  also have "\<dots> \<le> length (replaceAll TAB [BSLASH, CHR ''t'']
                        (replaceAll NEWLINE [BSLASH, CHR ''n'']
                          (replaceAll DQUOTE [BSLASH, DQUOTE]
                            (replaceAll BSLASH [BSLASH, BSLASH] s))))"
    by (rule step)
  also have "\<dots> \<le> length (escapeString s)"
    unfolding escapeString_def by (rule step)
  finally show ?thesis .
qed

lemma quoted_differs: "[DQUOTE] @ escapeString s @ [DQUOTE] \<noteq> s"
proof
  assume "[DQUOTE] @ escapeString s @ [DQUOTE] = s"
  then have "length ([DQUOTE] @ escapeString s @ [DQUOTE]) = length s" by simp
  with escapeString_length [of s] show False by simp
qed

text \<open>
  Claim C6, amended. For every non-empty string the serializer emits the quoted and escaped
  token exactly when the string contains a space, tab, double quote, newline or backslash,
  equals \<open>true\<close>, \<open>false\<close> or \<open>null\<close>, starts with \<open>:\<close>, or matches the integer or decimal
  pattern; otherwise it emits the string verbatim.
\<close>

theorem serializeString_quoting:
  assumes "s \<noteq> []"
  shows "(serializeString s = [DQUOTE] @ escapeString s @ [DQUOTE]) =
           (claimedNeedsQuotes s \<or> BSLASH \<in> set s) \<and>
         (serializeString s = s) = (\<not> (claimedNeedsQuotes s \<or> BSLASH \<in> set s))"
proof -
  have nq: "needsQuotes s = (claimedNeedsQuotes s \<or> BSLASH \<in> set s)"
    using assms
    by (auto simp: needsQuotes_def claimedNeedsQuotes_def includesChar_def matchesNumber_iff)
  show ?thesis
    using quoted_differs [of s] by (auto simp: serializeString_def nq)
qed

text \<open>
  The amended claim at \<open>hello world\<close>, \<open>hello\<close> and \<open>-3.5\<close>.
\<close>

theorem serializeString_quoting_witness:
  "serializeString ''hello world'' = [DQUOTE] @ ''hello world'' @ [DQUOTE] \<and>
   serializeString ''hello'' = ''hello'' \<and>
   serializeString ''-3.5'' = [DQUOTE] @ ''-3.5'' @ [DQUOTE]"
proof -
  have a: "claimedNeedsQuotes ''hello world''"
    by (simp add: claimedNeedsQuotes_def)
  have b: "\<not> (claimedNeedsQuotes ''hello'' \<or> BSLASH \<in> set ''hello'')"
    by (simp add: claimedNeedsQuotes_def startsWith_def matchesInt_def matchesDecimal_def
        stripMinus_def isDigit_def)
  have c: "claimedNeedsQuotes ''-3.5''"
    by (simp add: claimedNeedsQuotes_def startsWith_def matchesInt_def matchesDecimal_def
        stripMinus_def isDigit_def)
  have e1: "escapeString ''hello world'' = ''hello world''"
    by (simp add: escapeString_def replaceAll_def)
  have e2: "escapeString ''-3.5'' = ''-3.5''"
    by (simp add: escapeString_def replaceAll_def)
  show ?thesis
    using serializeString_quoting [of "''hello world''"] serializeString_quoting [of "''hello''"]
      serializeString_quoting [of "''-3.5''"] a b c e1 e2
    by simp
qed

text \<open>
  Claim C6 as stated fails: a string holding a backslash meets none of the listed
  conditions, and the serializer quotes it.
\<close>

theorem serializeString_backslash_counterexample:
  "\<not> claimedNeedsQuotes [CHR ''a'', BSLASH, CHR ''b''] \<and>
   serializeString [CHR ''a'', BSLASH, CHR ''b''] =
     [DQUOTE, CHR ''a'', BSLASH, BSLASH, CHR ''b'', DQUOTE]"
  by (simp add: claimedNeedsQuotes_def serializeString_def needsQuotes_def includesChar_def
      escapeString_def replaceAll_def startsWith_def matchesInt_def matchesDecimal_def
      stripMinus_def isDigit_def)

subsection \<open>Evaluation at concrete inputs\<close>

text \<open>The unfolding rules that evaluate the parser, the serializer and the ISONL decoder.\<close>

lemmas string_eval =
  trim_def isJsSpace_def startsWith_def stripMinus_def isDigit_def isSpaceTab_def
  unescape_def matchesInt_def matchesDecimal_def newBlock_def addFields_def addField_def
  emptyRow_def assign_def

lemmas parser_eval =
  parse_def parseLoop.simps parseBlock_def parseRows.simps peekLine_def readLine_def
  skipWhitespaceAndComments.simps skipEmptyLines.simps
  tokenizeLine_def findCommentStart_def tokenizeFrom.simps
  matchesHeaderStart_def isLower_def
  parseValue_def parseReference_def parseInt_def digitsToNat_def digitValue_def

lemmas serializer_eval =
  dumps_def serialize_def serializeBlock_def calculateWidths_def
  serializeRow_def serializeCell_def serializeValue_def serializeString_def
  needsQuotes_def includesChar_def padEnd_def fieldDef_def matchesNumber_def
  escapeString_def replaceAll_def getProperty_def inheritedFromObject_def
  objectPrototypeMethods_def referenceMethods_def

lemmas isonl_eval =
  loadsIsonl_def isonlLine_def tokenizeValues.simps isonlParseValue_def
  splitWhitespace_def splitWhitespaceFrom.simps

text \<open>
  Claim C1 at the input \<open>table.t / a / ""\<close>. The parser builds a document whose single
  row holds the empty string; \<open>dumps\<close> writes that value as nothing at all (with and
  without column alignment), and re-parsing the output gives a block with no row.
\<close>

theorem roundtrip_loses_empty_string:
  "parse (''table.t'' @ [NEWLINE] @ ''a'' @ [NEWLINE] @ [DQUOTE, DQUOTE]) =
     Inr \<lparr>blocks = [\<lparr>kind = ''table'', name = ''t'', fieldNames = [''a''],
       fieldInfo = [\<lparr>fi_name = ''a'', fi_type = None, isComputed = False\<rparr>],
       rows = [objectLiteral [''a'' \<mapsto> VStr []]], summaryRows = []\<rparr>]\<rparr> \<and>
   dumps \<lparr>blocks = [\<lparr>kind = ''table'', name = ''t'', fieldNames = [''a''],
       fieldInfo = [\<lparr>fi_name = ''a'', fi_type = None, isComputed = False\<rparr>],
       rows = [objectLiteral [''a'' \<mapsto> VStr []]], summaryRows = []\<rparr>]\<rparr> True =
     Inr (''table.t'' @ [NEWLINE] @ ''a'' @ [NEWLINE]) \<and>
   dumps \<lparr>blocks = [\<lparr>kind = ''table'', name = ''t'', fieldNames = [''a''],
       fieldInfo = [\<lparr>fi_name = ''a'', fi_type = None, isComputed = False\<rparr>],
       rows = [objectLiteral [''a'' \<mapsto> VStr []]], summaryRows = []\<rparr>]\<rparr> False =
     Inr (''table.t'' @ [NEWLINE] @ ''a'' @ [NEWLINE]) \<and>
   parse (''table.t'' @ [NEWLINE] @ ''a'' @ [NEWLINE]) =
     Inr \<lparr>blocks = [\<lparr>kind = ''table'', name = ''t'', fieldNames = [''a''],
       fieldInfo = [\<lparr>fi_name = ''a'', fi_type = None, isComputed = False\<rparr>],
       rows = [], summaryRows = []\<rparr>]\<rparr>"
  by (simp add: string_eval parser_eval serializer_eval)

text \<open>
  Claim C3 at the data line \<open>"true" "123"\<close>. The tokenizer returns the bare texts
  \<open>true\<close> and \<open>123\<close>, and \<open>parseValue\<close> infers the boolean and the number from them.
\<close>

theorem quoted_token_is_inferred:
  "parse (''table.t'' @ [NEWLINE] @ ''v w'' @ [NEWLINE] @
          [DQUOTE] @ ''true'' @ [DQUOTE] @ '' '' @ [DQUOTE] @ ''123'' @ [DQUOTE]) =
     Inr \<lparr>blocks = [\<lparr>kind = ''table'', name = ''t'', fieldNames = [''v'', ''w''],
       fieldInfo = [\<lparr>fi_name = ''v'', fi_type = None, isComputed = False\<rparr>,
                    \<lparr>fi_name = ''w'', fi_type = None, isComputed = False\<rparr>],
       rows = [objectLiteral [''v'' \<mapsto> VBool True, ''w'' \<mapsto> VNum (Dec 123 0)]],
       summaryRows = []\<rparr>]\<rparr>"
  by (simp add: string_eval parser_eval)

text \<open>
  Claim C4 at the ISONL line \<open>table.t|a|"abc\<close>. The values section is read by
  \<open>tokenizeValues\<close>, which takes the rest of the line as the token; the same characters
  given to the parser's \<open>tokenizeLine\<close> raise the error.
\<close>

theorem isonl_unterminated_quote_accepted:
  "loadsIsonl (''table.t|a|'' @ [DQUOTE] @ ''abc'') =
     Inr \<lparr>blocks = [\<lparr>kind = ''table'', name = ''t'', fieldNames = [''a''],
       fieldInfo = [\<lparr>fi_name = ''a'', fi_type = None, isComputed = False\<rparr>],
       rows = [objectLiteral [''a'' \<mapsto> VStr ''abc'']], summaryRows = []\<rparr>]\<rparr> \<and>
   tokenizeLine ([DQUOTE] @ ''abc'') = Inl UnterminatedString"
  by (simp add: string_eval isonl_eval tokenizeLine_def findCommentStart_def tokenizeFrom.simps)

text \<open>
  Claim C7 at the ISONL line \<open>table.t|a|"x|y"\<close>. The line has two unquoted pipes, but
  \<open>split("|")\<close> cuts at the quoted one too and the four parts are rejected.
\<close>

theorem isonl_quoted_pipe_rejected:
  "loadsIsonl (''table.t|a|'' @ [DQUOTE] @ ''x|y'' @ [DQUOTE]) =
     Inl (InvalidISONLLine (''table.t|a|'' @ [DQUOTE] @ ''x|y'' @ [DQUOTE]))"
  by (simp add: string_eval isonl_eval)

subsection \<open>The document loop: a header at the end of input\<close>

lemma readLine_Nil: "readLine [] = (None, [])"
  by (simp add: readLine_def)

lemma readLine_Some_nonempty: "readLine s = (Some h, s1) \<Longrightarrow> s \<noteq> []"
  by (auto simp: readLine_def)

lemma parseLoop_Nil: "parseLoop bs [] = Inr \<lparr>blocks = bs\<rparr>"
  by (subst parseLoop.simps) simp

lemma parseLoop_step:
  "s \<noteq> [] \<Longrightarrow> parseBlock s = Inr (Some b, r) \<Longrightarrow>
   parseLoop bs s = parseLoop (bs @ [b]) (skipWhitespaceAndComments r)"
  by (subst parseLoop.simps) simp

text \<open>
  Claim C9, amended. When a valid header line \<open>h\<close> is read and only blank space and
  comments follow it (\<open>skipEmptyLines\<close> reaches the end of the input), \<open>parseBlock\<close>
  returns the block with that kind and name and with no fields and no rows, and the
  document loop ends with this block appended to the blocks parsed so far. No error is
  raised.
\<close>

theorem header_at_end_gives_empty_block:
  assumes "readLine s = (Some h, s1)"
    and "h \<noteq> []" and "\<not> startsWith h ''#''"
    and "indexOf h (CHR ''.'') = Some d"
    and "trim (take d h) \<noteq> []" and "trim (drop (d + 1) h) \<noteq> []"
    and "skipEmptyLines s1 = []"
  shows "parseBlock s =
           Inr (Some \<lparr>kind = trim (take d h), name = trim (drop (d + 1) h),
                       fieldNames = [], fieldInfo = [], rows = [], summaryRows = []\<rparr>, []) \<and>
         parseLoop bs s =
           Inr \<lparr>blocks = bs @ [\<lparr>kind = trim (take d h), name = trim (drop (d + 1) h),
                       fieldNames = [], fieldInfo = [], rows = [], summaryRows = []\<rparr>]\<rparr>"
proof -
  have pb: "parseBlock s =
           Inr (Some \<lparr>kind = trim (take d h), name = trim (drop (d + 1) h),
                       fieldNames = [], fieldInfo = [], rows = [], summaryRows = []\<rparr>, [])"
    using assms by (simp add: parseBlock_def readLine_Nil newBlock_def)
  have ne: "s \<noteq> []"
    using assms(1) by (rule readLine_Some_nonempty)
  have "parseLoop bs s =
          parseLoop (bs @ [\<lparr>kind = trim (take d h), name = trim (drop (d + 1) h),
                       fieldNames = [], fieldInfo = [], rows = [], summaryRows = []\<rparr>])
            (skipWhitespaceAndComments [])"
    using ne pb by (rule parseLoop_step)
  then show ?thesis
    using pb by (simp add: skipWhitespaceAndComments_Nil parseLoop_Nil)
qed

text \<open>
  The amended claim at \<open>table.t\<close> followed by a comment line.
\<close>

theorem header_at_end_gives_empty_block_witness:
  "parseLoop [] (''table.t'' @ [NEWLINE] @ ''# end'' @ [NEWLINE]) =
     Inr \<lparr>blocks = [\<lparr>kind = ''table'', name = ''t'',
                       fieldNames = [], fieldInfo = [], rows = [], summaryRows = []\<rparr>]\<rparr>"
proof -
  have a: "readLine (''table.t'' @ [NEWLINE] @ ''# end'' @ [NEWLINE]) =
             (Some ''table.t'', ''# end'' @ [NEWLINE])"
    by (simp add: readLine_def trim_def isJsSpace_def)
  have b: "''table.t'' \<noteq> []" by simp
  have c: "\<not> startsWith ''table.t'' ''#''" by (simp add: startsWith_def)
  have d: "indexOf ''table.t'' (CHR ''.'') = Some 5" by simp
  have e: "trim (take 5 ''table.t'') \<noteq> []" by (simp add: trim_def isJsSpace_def)
  have f: "trim (drop (5 + 1) ''table.t'') \<noteq> []" by (simp add: trim_def isJsSpace_def)
  have g: "skipEmptyLines (''# end'' @ [NEWLINE]) = []"
    by (simp add: skipEmptyLines_Cons skipEmptyLines_Nil)
  show ?thesis
    using header_at_end_gives_empty_block [OF a b c d e f g, of "[]"]
    by (simp add: trim_def isJsSpace_def)
qed

text \<open>
  Claim C9 as stated fails: the input \<open>table.t\<close> parses to a document whose block has no
  fields, where the claim demands a syntax error.
\<close>

theorem header_at_end_counterexample:
  "parse ''table.t'' =
     Inr \<lparr>blocks = [\<lparr>kind = ''table'', name = ''t'', fieldNames = [],
       fieldInfo = [], rows = [], summaryRows = []\<rparr>]\<rparr>"
  by (simp add: string_eval parser_eval)

subsection \<open>The row loop\<close>

lemma parseRows_Nil: "parseRows b inS [] = Inr (b, [])"
  by (subst parseRows.simps) simp

lemma parseRows_unfold:
  "s \<noteq> [] \<Longrightarrow>
   parseRows b inS s =
     (case peekLine s of
        None \<Rightarrow> Inr (b, s)
      | Some line \<Rightarrow>
          if line = [] \<or> matchesHeaderStart line then Inr (b, s)
          else if startsWith line ''#'' then parseRows b inS (snd (readLine s))
          else if trim line = ''---'' then parseRows b True (snd (readLine s))
          else
            (case tokenizeLine line of
               Inl e \<Rightarrow> Inl e
             | Inr vs \<Rightarrow>
                 if vs = [] then Inr (b, snd (readLine s))
                 else
                   (case buildRow (fieldNames b) vs emptyRow of
                      Inl e \<Rightarrow> Inl e
                    | Inr row \<Rightarrow>
                        if inS
                        then parseRows (b\<lparr>summaryRows := summaryRows b @ [row]\<rparr>) inS
                               (snd (readLine s))
                        else parseRows (b\<lparr>rows := rows b @ [row]\<rparr>) inS
                               (snd (readLine s)))))"
  by (subst parseRows.simps) simp






lemma buildRow_succeeds:
  "list_all isValueToken (take (length fs) vs) \<Longrightarrow> \<exists>row. buildRow fs vs m = Inr row"
proof (induction fs arbitrary: vs m)
  case Nil
  show ?case by simp
next
  case (Cons f fs)
  show ?case
  proof (cases vs)
    case Nil
    then show ?thesis by simp
  next
    case (Cons v vs')
    from Cons.prems Cons have v: "isValueToken v"
      and rest: "list_all isValueToken (take (length fs) vs')"
      by simp_all
    from v obtain x where x: "parseValue v = Inr x"
      by (auto simp: isValueToken_def split: sum.splits)
    from Cons.IH [OF rest, of "assign m f x"] x Cons show ?thesis by simp
  qed
qed

lemma buildRow_own:
  assumes "buildRow fs vs m = Inr row" and "''__proto__'' \<notin> set fs"
  shows "proto row = proto m \<and>
         dom (own row) = dom (own m) \<union> set (take (length vs) fs) \<and>
         (\<forall>f. f \<notin> set (take (length vs) fs) \<longrightarrow> own row f = own m f) \<and>
         (\<forall>i. i < min (length fs) (length vs) \<longrightarrow>
              fs ! i \<notin> set (drop (Suc i) (take (length vs) fs)) \<longrightarrow>
              (\<exists>x. parseValue (vs ! i) = Inr x \<and> own row (fs ! i) = Some x))"
  using assms
proof (induction fs arbitrary: vs m)
  case Nil
  then show ?case by simp
next
  case (Cons f fs)
  show ?case
  proof (cases vs)
    case Nil
    with Cons.prems show ?thesis by simp
  next
    case (Cons v vs')
    note vs = Cons
    show ?thesis
    proof (cases "parseValue v")
      case (Inl e)
      with Cons.prems vs show ?thesis by simp
    next
      case (Inr x)
      have nf: "f \<noteq> ''__proto__''" and nfs: "''__proto__'' \<notin> set fs"
        using Cons.prems(2) by auto
      let ?m = "assign m f x"
      have m: "?m = m\<lparr>own := (own m)(f \<mapsto> x)\<rparr>"
        using nf by (simp add: assign_def)
      have br: "buildRow fs vs' ?m = Inr row"
        using Cons.prems(1) vs Inr by simp
      note ih = Cons.IH [OF br nfs]
      have p: "proto row = proto m"
        using ih m by simp
      have d: "dom (own row) = dom (own m) \<union> set (take (length vs) (f # fs))"
        using ih m vs by auto
      have u: "own row g = own m g" if "g \<notin> set (take (length vs) (f # fs))" for g
        using ih m vs that by auto
      have w: "\<exists>y. parseValue (vs ! i) = Inr y \<and> own row ((f # fs) ! i) = Some y"
        if "i < min (length (f # fs)) (length vs)"
          and "(f # fs) ! i \<notin> set (drop (Suc i) (take (length vs) (f # fs)))" for i
      proof (cases i)
        case 0
        have "f \<notin> set (take (length vs') fs)"
          using that(2) 0 vs by simp
        then have "own row f = own ?m f"
          using ih by blast
        then show ?thesis
          using 0 vs Inr m by simp
      next
        case (Suc j)
        have "j < min (length fs) (length vs')"
          using that(1) Suc vs by simp
        moreover have "fs ! j \<notin> set (drop (Suc j) (take (length vs') fs))"
          using that(2) Suc vs by simp
        ultimately have "\<exists>y. parseValue (vs' ! j) = Inr y \<and> own row (fs ! j) = Some y"
          using ih by blast
        then show ?thesis
          using Suc vs by simp
      qed
      from p d u w show ?thesis by blast
    qed
  qed
qed

lemma validLine_tokens:
  assumes "validLine fs l"
  obtains vs row where "tokenizeLine (trim l) = Inr vs" and "vs \<noteq> []"
    and "list_all isValueToken (take (length fs) vs)"
    and "buildRow fs vs emptyRow = Inr row"
    and "tokensOf l = vs" and "rowOfLine fs l = row"
proof -
  from assms obtain vs where tk: "tokenizeLine (trim l) = Inr vs" and ne: "vs \<noteq> []"
    and ok: "list_all isValueToken (take (length fs) vs)"
    by (auto simp: validLine_def Let_def split: sum.splits)
  from buildRow_succeeds [OF ok] obtain row where br: "buildRow fs vs emptyRow = Inr row"
    by blast
  have "tokensOf l = vs" by (simp add: tokensOf_def tk)
  moreover have "rowOfLine fs l = row" by (simp add: rowOfLine_def tk br)
  ultimately show ?thesis using that tk ne ok br by blast
qed

lemma validLine_dataLine: "validLine fs l \<Longrightarrow> dataLine fs l"
proof -
  assume v: "validLine fs l"
  then obtain vs row where "tokenizeLine (trim l) = Inr vs" and "vs \<noteq> []"
    and "buildRow fs vs emptyRow = Inr row"
    by (rule validLine_tokens)
  with v show ?thesis
    by (simp add: validLine_def dataLine_def Let_def)
qed

lemma validLine_holds:
  assumes "validLine fs l" and "''__proto__'' \<notin> set fs"
  shows "holdsLeadingFields fs (tokensOf l) (rowOfLine fs l)"
proof -
  from assms(1) obtain vs row where br: "buildRow fs vs emptyRow = Inr row"
    and tv: "tokensOf l = vs" and rv: "rowOfLine fs l = row"
    by (rule validLine_tokens)
  note o = buildRow_own [OF br assms(2)]
  have p: "proto row = ObjectPrototype"
    using o by (simp add: emptyRow_def)
  have d: "dom (own row) = set (take (length vs) fs)"
    using o by (simp add: emptyRow_def)
  have a: "list_all
        (\<lambda>i. fs ! i \<in> set (drop (Suc i) (take (length vs) fs)) \<or>
             (case parseValue (vs ! i) of
                Inl e \<Rightarrow> False
              | Inr x \<Rightarrow> getProperty row (fs ! i) = Val x))
        [0..<min (length fs) (length vs)]"
    unfolding list_all_iff
  proof
    fix i assume "i \<in> set [0..<min (length fs) (length vs)]"
    then have i: "i < min (length fs) (length vs)" by simp
    show "fs ! i \<in> set (drop (Suc i) (take (length vs) fs)) \<or>
             (case parseValue (vs ! i) of
                Inl e \<Rightarrow> False
              | Inr x \<Rightarrow> getProperty row (fs ! i) = Val x)"
    proof (cases "fs ! i \<in> set (drop (Suc i) (take (length vs) fs))")
      case True
      then show ?thesis by simp
    next
      case False
      with o i obtain x where "parseValue (vs ! i) = Inr x" and "own row (fs ! i) = Some x"
        by blast
      then show ?thesis by (simp add: getProperty_def)
    qed
  qed
  have b: "list_all
        (\<lambda>f. f \<in> set (take (length vs) fs) \<or> f \<in> set objectPrototypeMethods \<or>
             (getProperty row f = Undefined \<and>
              serializeValue (getProperty row f) = Inr ''null''))
        (drop (length vs) fs)"
    unfolding list_all_iff
  proof
    fix f assume f: "f \<in> set (drop (length vs) fs)"
    then have "f \<in> set fs" by (rule in_set_dropD)
    with assms(2) have np: "f \<noteq> ''__proto__''" by auto
    show "f \<in> set (take (length vs) fs) \<or> f \<in> set objectPrototypeMethods \<or>
             (getProperty row f = Undefined \<and>
              serializeValue (getProperty row f) = Inr ''null'')"
    proof (cases "f \<in> set (take (length vs) fs) \<or> f \<in> set objectPrototypeMethods")
      case True
      then show ?thesis by blast
    next
      case False
      then have "own row f = None" using d by (auto simp: dom_def)
      then have "getProperty row f = Undefined"
        using p np False by (simp add: getProperty_def inheritedFromObject_def)
      then show ?thesis by (simp add: serializeValue_def)
    qed
  qed
  show ?thesis
    unfolding holdsLeadingFields_def tv rv using p d a b by blast
qed

lemma readLine_line:
  assumes "NEWLINE \<notin> set l"
  shows "readLine (l @ NEWLINE # rest) = (Some (trim l), rest)"
proof -
  have all: "\<And>x. x \<in> set l \<Longrightarrow> x \<noteq> NEWLINE"
    using assms by auto
  have tw: "takeWhile (\<lambda>c. c \<noteq> NEWLINE) (l @ NEWLINE # rest) = l"
    using all by (simp add: takeWhile_append2)
  have dw: "dropWhile (\<lambda>c. c \<noteq> NEWLINE) (l @ NEWLINE # rest) = NEWLINE # rest"
    using all by (simp add: dropWhile_append2)
  show ?thesis
    by (simp add: readLine_def tw dw)
qed

lemma parseRows_end: "rowsEnd tail \<Longrightarrow> parseRows b inS tail = Inr (b, tail)"
proof (cases "tail = []")
  case True
  then show ?thesis by (simp add: parseRows_Nil)
next
  case False
  assume "rowsEnd tail"
  then show ?thesis
    by (subst parseRows_unfold [OF False]) (auto simp: rowsEnd_def split: option.splits)
qed

lemma linesText_Cons: "linesText (l # ls) @ tail = l @ NEWLINE # (linesText ls @ tail)"
  by (simp add: linesText_def)

lemma linesText_Nil: "linesText [] @ tail = tail"
  by (simp add: linesText_def)

lemma data_lines:
  assumes "list_all (dataLine (fieldNames b)) ls" and "rowsEnd tail"
  shows "parseRows b inS (linesText ls @ tail) =
           Inr (if inS
                then b\<lparr>summaryRows := summaryRows b @ map (rowOfLine (fieldNames b)) ls\<rparr>
                else b\<lparr>rows := rows b @ map (rowOfLine (fieldNames b)) ls\<rparr>, tail)"
  using assms(1)
proof (induction ls arbitrary: b)
  case Nil
  show ?case
    using parseRows_end [OF assms(2), of b inS] by (simp add: linesText_Nil)
next
  case (Cons l ls)
  let ?fs = "fieldNames b"
  from Cons.prems have dl: "dataLine ?fs l"
    and rest: "list_all (dataLine ?fs) ls"
    by simp_all
  from dl have nl: "NEWLINE \<notin> set l" and t1: "trim l \<noteq> []"
    and t2: "\<not> matchesHeaderStart (trim l)" and t3: "\<not> startsWith (trim l) ''#''"
    and t4: "trim (trim l) \<noteq> ''---''"
    by (simp_all add: dataLine_def Let_def)
  from dl obtain vs row where tk: "tokenizeLine (trim l) = Inr vs" and vs: "vs \<noteq> []"
    and br: "buildRow ?fs vs emptyRow = Inr row"
    by (auto simp: dataLine_def Let_def split: sum.splits)
  have ro: "rowOfLine ?fs l = row"
    by (simp add: rowOfLine_def tk br)
  let ?s = "l @ NEWLINE # (linesText ls @ tail)"
  have rl: "readLine ?s = (Some (trim l), linesText ls @ tail)"
    using nl by (rule readLine_line)
  have sne: "?s \<noteq> []" by simp
  show ?case
  proof (cases inS)
    case True
    have step: "parseRows b inS ?s =
          parseRows (b\<lparr>summaryRows := summaryRows b @ [row]\<rparr>) inS (linesText ls @ tail)"
      using True
      by (subst parseRows_unfold [OF sne]) (simp add: peekLine_def rl t1 t2 t3 t4 tk vs br)
    have "list_all (dataLine (fieldNames (b\<lparr>summaryRows := summaryRows b @ [row]\<rparr>))) ls"
      using rest by simp
    from Cons.IH [OF this] step ro True show ?thesis
      by (simp add: linesText_Cons)
  next
    case False
    have step: "parseRows b inS ?s =
          parseRows (b\<lparr>rows := rows b @ [row]\<rparr>) inS (linesText ls @ tail)"
      using False
      by (subst parseRows_unfold [OF sne]) (simp add: peekLine_def rl t1 t2 t3 t4 tk vs br)
    have "list_all (dataLine (fieldNames (b\<lparr>rows := rows b @ [row]\<rparr>))) ls"
      using rest by simp
    from Cons.IH [OF this] step ro False show ?thesis
      by (simp add: linesText_Cons)
  qed
qed




text \<open>
  The two places where a row is seen to be a JavaScript object and not a map: an absent
  field named \<open>constructor\<close> reads as the inherited function, which \<open>dumps\<close> cannot
  serialize, and assigning the field \<open>__proto__\<close> a number stores no key.
\<close>

lemma absent_inherited_field_is_not_serialized:
  "parse (''table.t'' @ [NEWLINE] @ ''a constructor'' @ [NEWLINE] @ ''1'') =
     Inr \<lparr>blocks = [\<lparr>kind = ''table'', name = ''t'', fieldNames = [''a'', ''constructor''],
       fieldInfo = [\<lparr>fi_name = ''a'', fi_type = None, isComputed = False\<rparr>,
                    \<lparr>fi_name = ''constructor'', fi_type = None, isComputed = False\<rparr>],
       rows = [objectLiteral [''a'' \<mapsto> VNum (Dec 1 0)]], summaryRows = []\<rparr>]\<rparr> \<and>
   getProperty (objectLiteral [''a'' \<mapsto> VNum (Dec 1 0)]) ''constructor'' = Function \<and>
   dumps \<lparr>blocks = [\<lparr>kind = ''table'', name = ''t'', fieldNames = [''a'', ''constructor''],
       fieldInfo = [\<lparr>fi_name = ''a'', fi_type = None, isComputed = False\<rparr>,
                    \<lparr>fi_name = ''constructor'', fi_type = None, isComputed = False\<rparr>],
       rows = [objectLiteral [''a'' \<mapsto> VNum (Dec 1 0)]], summaryRows = []\<rparr>]\<rparr> False =
     Inl TypeError"
  by (simp add: string_eval parser_eval serializer_eval)

lemma proto_field_stores_no_key:
  "buildRow [''__proto__'', ''a''] [''2'', ''3''] emptyRow =
     Inr (objectLiteral [''a'' \<mapsto> VNum (Dec 3 0)])"
  by (simp add: string_eval parser_eval)

subsection \<open>Documents with repeated block names\<close>

lemma addFields_rows:
  "rows (addFields b toks) = rows b \<and> summaryRows (addFields b toks) = summaryRows b \<and>
   name (addFields b toks) = name b \<and> kind (addFields b toks) = kind b"
  unfolding addFields_def
  by (induction toks arbitrary: b) (simp_all add: addField_def Let_def split: option.splits)

lemma startsLine_skipEmptyLines: "startsLine l \<Longrightarrow> skipEmptyLines (l @ rest) = l @ rest"
  by (cases l) (simp_all add: startsLine_def skipEmptyLines_Cons)

lemma startsLine_skipWhitespace:
  "startsLine l \<Longrightarrow> skipWhitespaceAndComments (l @ rest) = l @ rest"
  by (cases l) (simp_all add: startsLine_def skipWhitespaceAndComments_Cons)

lemma parseBlock_blockText:
  assumes "goodBlock bt" and "rowsEnd tail"
  shows "parseBlock (blockText bt @ tail) = Inr (Some (blockOf bt), tail)"
proof -
  obtain h f ls where bt: "bt = (h, f, ls)" by (cases bt)
  let ?rest1 = "f @ NEWLINE # (linesText ls @ tail)"
  let ?b0 = "headOf (h, f, ls)"
  from assms(1) bt have hok: "headerLineOK h" and fok: "fieldLineOK f"
    and lok: "list_all (validLine (fieldNames ?b0)) ls"
    by simp_all
  from hok have hn: "NEWLINE \<notin> set h" and h1: "trim h \<noteq> []"
    and h2: "\<not> startsWith (trim h) ''#''" and k: "kindOf h \<noteq> []" and n: "nameOf h \<noteq> []"
    by (simp_all add: headerLineOK_def)
  from k obtain d where d: "indexOf (trim h) (CHR ''.'') = Some d"
    by (auto simp: kindOf_def split: option.splits)
  have kd: "trim (take d (trim h)) = kindOf h" and nd: "trim (drop (Suc d) (trim h)) = nameOf h"
    by (simp_all add: kindOf_def nameOf_def d)
  from fok have fn: "NEWLINE \<notin> set f" and fs: "startsLine f" and f1: "trim f \<noteq> []"
    by (simp_all add: fieldLineOK_def)
  from fok obtain toks where tk: "tokenizeLine (trim f) = Inr toks"
    by (auto simp: fieldLineOK_def split: sum.splits)
  have tf: "tokensOf f = toks" by (simp add: tokensOf_def tk)
  have r1: "readLine (h @ NEWLINE # ?rest1) = (Some (trim h), ?rest1)"
    using hn by (rule readLine_line)
  have se: "skipEmptyLines ?rest1 = ?rest1"
    using startsLine_skipEmptyLines [OF fs] by simp
  have r2: "readLine ?rest1 = (Some (trim f), linesText ls @ tail)"
    using fn by (rule readLine_line)
  have dl: "list_all (dataLine (fieldNames ?b0)) ls"
    using lok by (auto simp: list_all_iff validLine_dataLine)
  have pr: "parseRows ?b0 False (linesText ls @ tail) =
              Inr (?b0\<lparr>rows := rows ?b0 @ map (rowOfLine (fieldNames ?b0)) ls\<rparr>, tail)"
    using data_lines [OF dl assms(2), of False] by simp
  have r0: "rows ?b0 = []"
    by (simp add: addFields_rows newBlock_def)
  have bx: "blockText bt @ tail = h @ NEWLINE # ?rest1"
    by (simp add: bt)
  have b0: "addFields (newBlock (kindOf h) (nameOf h)) toks = ?b0"
    by (simp add: tf)
  show ?thesis
    unfolding bx parseBlock_def
    using pr r0
    by (simp add: Let_def r1 h1 h2 d kd nd k n se r2 f1 tk b0 bt del: headOf.simps)
qed

lemma docText_starts:
  "goodDoc bts \<Longrightarrow> skipWhitespaceAndComments (docText bts) = docText bts"
proof (cases bts)
  case Nil
  then show ?thesis by (simp add: skipWhitespaceAndComments_Nil)
next
  case (Cons p rest)
  assume g: "goodDoc bts"
  obtain h f ls blank where p: "p = ((h, f, ls), blank)" by (cases p) auto
  have "startsLine h"
    using g Cons p by (simp add: headerLineOK_def)
  from startsLine_skipWhitespace [OF this] show ?thesis
    using Cons p by simp
qed

lemma docText_rowsEnd:
  assumes "goodDoc ((bt, blank) # rest)"
  shows "rowsEnd ((if blank then [NEWLINE] else []) @ docText rest)"
proof (cases blank)
  case True
  have "readLine (NEWLINE # docText rest) = (Some (trim []), docText rest)"
    using readLine_line [of "[]" "docText rest"] by simp
  then show ?thesis
    using True by (simp add: rowsEnd_def peekLine_def trim_def)
next
  case False
  show ?thesis
  proof (cases rest)
    case Nil
    with False show ?thesis
      by (simp add: rowsEnd_def peekLine_def readLine_def)
  next
    case (Cons p others)
    obtain h f ls b where p: "p = ((h, f, ls), b)" by (cases p) auto
    have mh: "matchesHeaderStart (trim h)"
      using assms False Cons p by simp
    have "NEWLINE \<notin> set h"
      using assms Cons p by (simp add: headerLineOK_def)
    then have "readLine (h @ NEWLINE # (f @ [NEWLINE] @ linesText ls @
                 (if b then [NEWLINE] else []) @ docText others)) =
               (Some (trim h), f @ [NEWLINE] @ linesText ls @
                 (if b then [NEWLINE] else []) @ docText others)"
      by (rule readLine_line)
    then show ?thesis
      using False Cons p mh by (simp add: rowsEnd_def peekLine_def)
  qed
qed

lemma parseLoop_docText:
  "goodDoc bts \<Longrightarrow>
   parseLoop acc (docText bts) = Inr \<lparr>blocks = acc @ map (\<lambda>p. blockOf (fst p)) bts\<rparr>"
proof (induction bts arbitrary: acc)
  case Nil
  show ?case by (simp add: parseLoop_Nil)
next
  case (Cons p rest)
  obtain bt blank where p: "p = (bt, blank)" by (cases p)
  let ?tail = "(if blank then [NEWLINE] else []) @ docText rest"
  have gb: "goodBlock bt" and gr: "goodDoc rest"
    using Cons.prems p by simp_all
  have re: "rowsEnd ?tail"
    using Cons.prems p docText_rowsEnd by blast
  have pb: "parseBlock (blockText bt @ ?tail) = Inr (Some (blockOf bt), ?tail)"
    using gb re by (rule parseBlock_blockText)
  obtain h f ls where bt: "bt = (h, f, ls)" by (cases bt)
  have ne: "blockText bt @ ?tail \<noteq> []"
    by (simp add: bt)
  have sk: "skipWhitespaceAndComments ?tail = docText rest"
    using docText_starts [OF gr] by (simp add: skipWhitespaceAndComments_Cons)
  have "parseLoop acc (blockText bt @ ?tail) = parseLoop (acc @ [blockOf bt]) (docText rest)"
    using parseLoop_step [OF ne pb, of acc] sk by simp
  also have "\<dots> = Inr \<lparr>blocks = (acc @ [blockOf bt]) @ map (\<lambda>p. blockOf (fst p)) rest\<rparr>"
    using gr by (rule Cons.IH)
  finally show ?case
    using p by simp
qed





text \<open>
  The same for a whole document text: every data row that \<open>parse\<close> returns for a
  well-formed text holds exactly the leading fields of its line.
\<close>

lemma parsed_rows_hold_leading_fields:
  assumes "goodDoc bts" and "((h, f, ls), blank) \<in> set bts"
    and "''__proto__'' \<notin> set (fieldNames (headOf (h, f, ls)))"
  shows "parse (docText bts) = Inr \<lparr>blocks = map (\<lambda>p. blockOf (fst p)) bts\<rparr> \<and>
         rows (blockOf (h, f, ls)) = map (rowOfLine (fieldNames (blockOf (h, f, ls)))) ls \<and>
         list_all
           (\<lambda>l. holdsLeadingFields (fieldNames (blockOf (h, f, ls))) (tokensOf l)
                  (rowOfLine (fieldNames (blockOf (h, f, ls))) l))
           ls"
proof -
  have a: "parse (docText bts) = Inr \<lparr>blocks = map (\<lambda>p. blockOf (fst p)) bts\<rparr>"
    using parseLoop_docText [OF assms(1), of "[]"] docText_starts [OF assms(1)]
    by (simp add: parse_def)
  have g: "goodBlock (h, f, ls)"
    using assms(1,2)
  proof (induction bts)
    case Nil
    then show ?case by simp
  next
    case (Cons p rest)
    then show ?case by (cases p) auto
  qed
  then have v: "list_all (validLine (fieldNames (headOf (h, f, ls)))) ls"
    by simp
  have fn: "fieldNames (blockOf (h, f, ls)) = fieldNames (headOf (h, f, ls))"
    by simp
  have "list_all
           (\<lambda>l. holdsLeadingFields (fieldNames (headOf (h, f, ls))) (tokensOf l)
                  (rowOfLine (fieldNames (headOf (h, f, ls))) l))
           ls"
    using v assms(3) by (auto simp: list_all_iff validLine_holds simp del: headOf.simps)
  with a show ?thesis
    unfolding fn by (simp del: headOf.simps)
qed

subsection \<open>Summary mode\<close>







end
